theory Spec2Isabelle
  imports Complex_Main
begin

section \<open>Data model\<close>

text \<open>
  Both scripts (\<open>extract_voices.py\<close> and \<open>scd_n_files_and_save_all_voices.py\<close>) read WAV
  files from an input folder, ask a diarization pipeline for the speaker turns of each
  file, cut the audio at the turn boundaries and write WAV files into an output folder.

  A decoded audio buffer (pydub's \<open>AudioSegment\<close>) is a list of frames; \<open>+\<close> on buffers is
  list append and \<open>AudioSegment.empty()\<close> is the empty list. Times are exact rationals
  (the source uses floats; rounding is outside this model).
\<close>

type_synonym path = string

type_synonym 'a AudioSegment = "'a list"

text \<open>What a path of the file system holds: a WAV file, given by the audio it decodes
  to, or any other content, given by its raw bytes.\<close>

datatype 'a file_content = Wav "'a AudioSegment" | Other string

type_synonym 'a filesystem = "path \<rightharpoonup> 'a file_content"

text \<open>A speaker turn of the diarization: \<open>turn.start\<close> and \<open>turn.end\<close>, in seconds.\<close>

record Turn =
  turn_start :: rat
  turn_end :: rat

text \<open>\<open>diarization.itertracks(yield_label=True)\<close> yields triples \<open>(turn, _, speaker)\<close>;
  the middle component is ignored by both scripts.\<close>

type_synonym track = "Turn \<times> string"

text \<open>The slice operator \<open>audio[a:b]\<close> of the audio library is a parameter of the model.\<close>

type_synonym 'a getitem = "'a AudioSegment \<Rightarrow> rat \<Rightarrow> rat \<Rightarrow> 'a AudioSegment"

datatype error =
    PipelineError path
  | FileNotFoundError path
  | CouldntDecodeError path
  | KeyError string

text \<open>A run ends normally or with an exception; either way the file system is left in
  the state reached so far.\<close>

datatype 'a outcome = Done "'a filesystem" | Raised error "'a filesystem"

fun final_fs :: "'a outcome \<Rightarrow> 'a filesystem" where
  "final_fs (Done fs) = fs"
| "final_fs (Raised e fs) = fs"

text \<open>The diarization pipeline is a parameter: it is given the path and the file system
  it reads the file from, and returns the tracks in emission order or raises.\<close>

type_synonym 'a pipeline = "path \<Rightarrow> 'a filesystem \<Rightarrow> error + track list"

section \<open>Library operations used by the scripts\<close>

text \<open>\<open>os.path.join(a, b)\<close> for two components (POSIX).\<close>

definition path_join :: "path \<Rightarrow> path \<Rightarrow> path" where
  "path_join a b =
     (if b \<noteq> [] \<and> hd b = CHR ''/'' then b
      else if a = [] \<or> last a = CHR ''/'' then a @ b
      else a @ ''/'' @ b)"

text \<open>\<open>s.endswith(suffix)\<close>.\<close>

definition endswith :: "string \<Rightarrow> string \<Rightarrow> bool" where
  "endswith s suffix = (length suffix \<le> length s \<and> drop (length s - length suffix) s = suffix)"

text \<open>\<open>s.rfind(c)\<close> for a single character: the last index of \<open>c\<close>, or \<open>-1\<close>.\<close>

fun rfind_from :: "string \<Rightarrow> char \<Rightarrow> int \<Rightarrow> int \<Rightarrow> int" where
  "rfind_from [] c i found = found"
| "rfind_from (x # xs) c i found = rfind_from xs c (i + 1) (if x = c then i else found)"

definition rfind :: "string \<Rightarrow> char \<Rightarrow> int" where
  "rfind s c = rfind_from s c 0 (-1)"

text \<open>\<open>os.path.splitext(p)[0]\<close> (POSIX): the extension starts at the last dot of the
  last path component, unless that component has only dots before it.\<close>

definition splitext_root :: "path \<Rightarrow> path" where
  "splitext_root p =
     (let sepIndex = rfind p (CHR ''/'');
          dotIndex = rfind p (CHR ''.'')
      in if dotIndex > sepIndex
            \<and> (\<exists>c \<in> set (take (nat (dotIndex - (sepIndex + 1))) (drop (nat (sepIndex + 1)) p)).
                  c \<noteq> CHR ''.'')
         then take (nat dotIndex) p
         else p)"

text \<open>\<open>str(n)\<close> for a non-negative integer, as the f-string formats \<open>segment_count\<close>.\<close>

definition digit_char :: "nat \<Rightarrow> char" where
  "digit_char d = ''0123456789'' ! (d mod 10)"

fun str_nat :: "nat \<Rightarrow> string" where
  "str_nat n = (if n < 10 then [digit_char n] else str_nat (n div 10) @ [digit_char (n mod 10)])"

declare str_nat.simps [simp del]

text \<open>\<open>os.path.exists(p)\<close>.\<close>

definition path_exists :: "'a filesystem \<Rightarrow> path \<Rightarrow> bool" where
  "path_exists fs p = (fs p \<noteq> None)"

text \<open>\<open>AudioSegment.from_wav(p)\<close>: decodes the file, or raises.\<close>

definition from_wav :: "'a filesystem \<Rightarrow> path \<Rightarrow> error + 'a AudioSegment" where
  "from_wav fs p =
     (case fs p of
        None \<Rightarrow> Inl (FileNotFoundError p)
      | Some (Wav a) \<Rightarrow> Inr a
      | Some (Other b) \<Rightarrow> Inl (CouldntDecodeError p))"

text \<open>\<open>seg.export(p, format="wav")\<close>: the file at \<open>p\<close> is created or truncated and holds
  the encoded buffer. The output folder exists (the scripts create it first); failures of
  the operating system while writing are outside this model.\<close>

definition export :: "'a filesystem \<Rightarrow> path \<Rightarrow> 'a AudioSegment \<Rightarrow> 'a filesystem" where
  "export fs p a = fs(p \<mapsto> Wav a)"

text \<open>A Python \<open>dict\<close> keeps its keys in insertion order: an association list with
  distinct keys.\<close>

type_synonym ('k, 'v) dict = "('k \<times> 'v) list"

definition dict_contains :: "('k, 'v) dict \<Rightarrow> 'k \<Rightarrow> bool" where
  "dict_contains d k = (k \<in> set (map fst d))"

text \<open>\<open>d[k]\<close>: the entry under the key, or \<open>None\<close> where Python raises \<open>KeyError\<close>.\<close>

definition dict_getitem :: "('k, 'v) dict \<Rightarrow> 'k \<Rightarrow> 'v option" where
  "dict_getitem d k = map_of d k"

text \<open>\<open>d[k] = v\<close>: an existing key keeps its position, a new key goes to the end.\<close>

fun dict_setitem :: "('k, 'v) dict \<Rightarrow> 'k \<Rightarrow> 'v \<Rightarrow> ('k, 'v) dict" where
  "dict_setitem [] k v = [(k, v)]"
| "dict_setitem ((k', v') # d) k v =
     (if k' = k then (k, v) # d else (k', v') # dict_setitem d k v)"

text \<open>The slice operator of the audio library at one frame per millisecond, for bounds
  that are not negative: both bounds are cut down to the length of the buffer, and a
  start at or after the stop gives the empty buffer. It instantiates the parameter
  where a concrete run is evaluated.\<close>

definition getitem_ms :: "'a getitem" where
  "getitem_ms audio a b =
     (let n = length audio;
          start = min (nat \<lfloor>a\<rfloor>) n;
          stop = min (nat \<lfloor>b\<rfloor>) n
      in take (stop - start) (drop start audio))"

section \<open>One file per speaker: \<open>scd_n_files_and_save_all_voices.py\<close>\<close>

text \<open>Lines 48 to 55: the loop over the tracks, grouping the slices by speaker. The
  dictionary lookup of line 55 raises \<open>KeyError\<close> on a missing key.\<close>

fun group_tracks ::
  "'a getitem \<Rightarrow> 'a AudioSegment \<Rightarrow> track list \<Rightarrow> (string, 'a AudioSegment) dict
     \<Rightarrow> error + (string, 'a AudioSegment) dict" where
  "group_tracks getitem audio [] speaker_segments = Inr speaker_segments"
| "group_tracks getitem audio ((turn, speaker) # tracks) speaker_segments =
     (let speaker_segments1 =
            (if \<not> dict_contains speaker_segments speaker
             then dict_setitem speaker_segments speaker []
             else speaker_segments);
          segment = getitem audio (turn_start turn * 1000) (turn_end turn * 1000)
      in case dict_getitem speaker_segments1 speaker of
           None \<Rightarrow> Inl (KeyError speaker)
         | Some acc \<Rightarrow>
             group_tracks getitem audio tracks
               (dict_setitem speaker_segments1 speaker (acc @ segment)))"

text \<open>Line 60: the path of a speaker's file.\<close>

definition speaker_file :: "path \<Rightarrow> string \<Rightarrow> string \<Rightarrow> path" where
  "speaker_file output_folder_path base_filename speaker =
     path_join output_folder_path (base_filename @ ''_speaker_'' @ speaker @ ''.wav'')"

text \<open>Lines 63 to 69: write the buffer, or append it to the file already there;
  \<open>target\<close> is the path the source calls \<open>speaker_file\<close>.\<close>

definition save_speaker :: "'a filesystem \<Rightarrow> path \<Rightarrow> 'a AudioSegment \<Rightarrow> 'a outcome" where
  "save_speaker fs target audio_segment =
     (if \<not> path_exists fs target
      then Done (export fs target audio_segment)
      else case from_wav fs target of
             Inl e \<Rightarrow> Raised e fs
           | Inr existing_audio \<Rightarrow>
               Done (export fs target (existing_audio @ audio_segment)))"

text \<open>Lines 59 to 69: the loop over \<open>speaker_segments.items()\<close>.\<close>

fun save_speakers ::
  "path \<Rightarrow> string \<Rightarrow> (string, 'a AudioSegment) dict \<Rightarrow> 'a filesystem \<Rightarrow> 'a outcome" where
  "save_speakers output_folder_path base_filename [] fs = Done fs"
| "save_speakers output_folder_path base_filename ((speaker, audio_segment) # items) fs =
     (case save_speaker fs (speaker_file output_folder_path base_filename speaker)
             audio_segment of
        Raised e fs' \<Rightarrow> Raised e fs'
      | Done fs' \<Rightarrow> save_speakers output_folder_path base_filename items fs')"

text \<open>Lines 37 to 69: the body of the loop over the audio files.\<close>

definition process_file ::
  "'a pipeline \<Rightarrow> 'a getitem \<Rightarrow> path \<Rightarrow> path \<Rightarrow> string \<Rightarrow> 'a filesystem \<Rightarrow> 'a outcome" where
  "process_file pipeline getitem input_folder_path output_folder_path audio_file fs =
     (let audio_path = path_join input_folder_path audio_file
      in case pipeline audio_path fs of
           Inl e \<Rightarrow> Raised e fs
         | Inr diarization \<Rightarrow>
             (case from_wav fs audio_path of
                Inl e \<Rightarrow> Raised e fs
              | Inr audio \<Rightarrow>
                  (case group_tracks getitem audio diarization [] of
                     Inl e \<Rightarrow> Raised e fs
                   | Inr speaker_segments \<Rightarrow>
                       save_speakers output_folder_path (splitext_root audio_file)
                         speaker_segments fs)))"

text \<open>Lines 36 to 72: the loop over the audio files. Nothing catches an exception.\<close>

fun process_files ::
  "'a pipeline \<Rightarrow> 'a getitem \<Rightarrow> path \<Rightarrow> path \<Rightarrow> string list \<Rightarrow> 'a filesystem \<Rightarrow> 'a outcome" where
  "process_files pipeline getitem input_folder_path output_folder_path [] fs = Done fs"
| "process_files pipeline getitem input_folder_path output_folder_path (audio_file # rest) fs =
     (case process_file pipeline getitem input_folder_path output_folder_path audio_file fs of
        Raised e fs' \<Rightarrow> Raised e fs'
      | Done fs' \<Rightarrow>
          process_files pipeline getitem input_folder_path output_folder_path rest fs')"

text \<open>The script: \<open>listdir\<close> is what \<open>os.listdir(input_folder_path)\<close> returns.\<close>

definition scd_n_files_and_save_all_voices ::
  "'a pipeline \<Rightarrow> 'a getitem \<Rightarrow> path \<Rightarrow> path \<Rightarrow> string list \<Rightarrow> 'a filesystem \<Rightarrow> 'a outcome" where
  "scd_n_files_and_save_all_voices pipeline getitem input_folder_path output_folder_path
       listdir fs =
     (let audio_files = filter (\<lambda>f. endswith f ''.wav'') listdir
      in process_files pipeline getitem input_folder_path output_folder_path audio_files fs)"

section \<open>One file per segment: \<open>extract_voices.py\<close>\<close>

text \<open>Line 108: the path of a segment's file.\<close>

definition speaker_segment_file :: "path \<Rightarrow> string \<Rightarrow> string \<Rightarrow> nat \<Rightarrow> path" where
  "speaker_segment_file output_folder_path base_filename speaker segment_count =
     path_join output_folder_path
       (base_filename @ ''_speaker_'' @ speaker @ ''_segment_'' @ str_nat segment_count
          @ ''.wav'')"

text \<open>Lines 105 to 110: the loop over the tracks, with the running \<open>segment_count\<close>.\<close>

fun export_tracks ::
  "'a getitem \<Rightarrow> 'a AudioSegment \<Rightarrow> path \<Rightarrow> string \<Rightarrow> track list \<Rightarrow> nat \<Rightarrow> 'a filesystem
     \<Rightarrow> 'a filesystem" where
  "export_tracks getitem audio output_folder_path base_filename [] segment_count fs = fs"
| "export_tracks getitem audio output_folder_path base_filename ((turn, speaker) # tracks)
       segment_count fs =
     (let segment = getitem audio (turn_start turn * 1000) (turn_end turn * 1000);
          target =
            speaker_segment_file output_folder_path base_filename speaker segment_count
      in export_tracks getitem audio output_folder_path base_filename tracks
           (segment_count + 1) (export fs target segment))"

text \<open>Lines 93 to 110: the body of the loop over the audio files.\<close>

definition extract_file ::
  "'a pipeline \<Rightarrow> 'a getitem \<Rightarrow> path \<Rightarrow> path \<Rightarrow> string \<Rightarrow> 'a filesystem \<Rightarrow> 'a outcome" where
  "extract_file pipeline getitem input_folder_path output_folder_path audio_file fs =
     (let audio_path = path_join input_folder_path audio_file
      in case pipeline audio_path fs of
           Inl e \<Rightarrow> Raised e fs
         | Inr diarization \<Rightarrow>
             (case from_wav fs audio_path of
                Inl e \<Rightarrow> Raised e fs
              | Inr audio \<Rightarrow>
                  Done (export_tracks getitem audio output_folder_path
                          (splitext_root audio_file) diarization 0 fs)))"

text \<open>Lines 92 to 113: the loop over the audio files.\<close>

fun extract_files ::
  "'a pipeline \<Rightarrow> 'a getitem \<Rightarrow> path \<Rightarrow> path \<Rightarrow> string list \<Rightarrow> 'a filesystem \<Rightarrow> 'a outcome" where
  "extract_files pipeline getitem input_folder_path output_folder_path [] fs = Done fs"
| "extract_files pipeline getitem input_folder_path output_folder_path (audio_file # rest) fs =
     (case extract_file pipeline getitem input_folder_path output_folder_path audio_file fs of
        Raised e fs' \<Rightarrow> Raised e fs'
      | Done fs' \<Rightarrow>
          extract_files pipeline getitem input_folder_path output_folder_path rest fs')"

text \<open>\<open>extract_voices\<close>: the files are taken in ascending order of size (\<open>sorted\<close> is
  stable, as \<open>sort_key\<close> is); \<open>getsize\<close> is \<open>os.path.getsize\<close>.\<close>

definition extract_voices ::
  "'a pipeline \<Rightarrow> 'a getitem \<Rightarrow> (path \<Rightarrow> nat) \<Rightarrow> path \<Rightarrow> path \<Rightarrow> string list \<Rightarrow> 'a filesystem
     \<Rightarrow> 'a outcome" where
  "extract_voices pipeline getitem getsize input_folder_path output_folder_path listdir fs =
     (let audio_files =
            sort_key (\<lambda>f. getsize (path_join input_folder_path f))
              (filter (\<lambda>f. endswith f ''.wav'') listdir)
      in extract_files pipeline getitem input_folder_path output_folder_path audio_files fs)"

section \<open>Notions of the specification\<close>

text \<open>The audio a pass extracts for one speaker: the slices of that speaker's tracks,
  one after the other in emission order.\<close>

definition slices_of ::
  "'a getitem \<Rightarrow> 'a AudioSegment \<Rightarrow> track list \<Rightarrow> string \<Rightarrow> 'a AudioSegment" where
  "slices_of getitem audio tracks speaker =
     concat (map (\<lambda>(turn, s). getitem audio (turn_start turn * 1000) (turn_end turn * 1000))
               (filter (\<lambda>(turn, s). s = speaker) tracks))"

text \<open>First-seen order: every element once, at the place of its first occurrence.\<close>

fun first_seen :: "'a list \<Rightarrow> 'a list" where
  "first_seen [] = []"
| "first_seen (x # xs) = x # filter (\<lambda>y. y \<noteq> x) (first_seen xs)"

text \<open>Lines 63 to 69 run once per buffer on the same path: \<open>persist(K, A); persist(K, B);
  ...\<close> of the specification.\<close>

fun save_all :: "'a filesystem \<Rightarrow> path \<Rightarrow> 'a AudioSegment list \<Rightarrow> 'a outcome" where
  "save_all fs target [] = Done fs"
| "save_all fs target (buffer # buffers) =
     (case save_speaker fs target buffer of
        Raised e fs' \<Rightarrow> Raised e fs'
      | Done fs' \<Rightarrow> save_all fs' target buffers)"

text \<open>\<open>sub in s\<close> on strings: \<open>sub\<close> occurs in \<open>s\<close> as a substring.\<close>

fun str_contains :: "string \<Rightarrow> string \<Rightarrow> bool" where
  "str_contains [] sub = (sub = [])"
| "str_contains (c # s) sub = (take (length sub) (c # s) = sub \<or> str_contains s sub)"

text \<open>The audio a path holds before a pass: that of the WAV file there, and none where
  there is no file.\<close>

definition existing_audio :: "'a filesystem \<Rightarrow> path \<Rightarrow> 'a AudioSegment" where
  "existing_audio fs p = (case fs p of Some (Wav e) \<Rightarrow> e | _ \<Rightarrow> [])"

section \<open>Auxiliary notions of the proofs\<close>

text \<open>Reading a decimal numeral back, to show that \<open>str_nat\<close> loses nothing.\<close>

definition digit_val :: "char \<Rightarrow> nat" where
  "digit_val c = of_char c - 48"

definition nat_of_str :: "string \<Rightarrow> nat" where
  "nat_of_str s = foldl (\<lambda>acc c. 10 * acc + digit_val c) 0 s"

text \<open>The exception a run ended with, if any.\<close>

definition raised_error :: "'a outcome \<Rightarrow> error option" where
  "raised_error r = (case r of Done fs \<Rightarrow> None | Raised e fs \<Rightarrow> Some e)"

text \<open>The slice both scripts cut for one track (line 54, and line 107).\<close>

definition slice_of :: "'a getitem \<Rightarrow> 'a AudioSegment \<Rightarrow> track \<Rightarrow> 'a AudioSegment" where
  "slice_of getitem audio t =
     getitem audio (turn_start (fst t) * 1000) (turn_end (fst t) * 1000)"

section \<open>The dictionary\<close>

lemma dict_getitem_setitem: "dict_getitem (dict_setitem d k v) k' = (if k' = k then Some v else dict_getitem d k')"
  by (induction d) (auto simp: dict_getitem_def)

lemma keys_setitem: "map fst (dict_setitem d k v) = (if dict_contains d k then map fst d else map fst d @ [k])"
  by (induction d) (force simp: dict_contains_def)+

lemma dict_contains_getitem: "dict_contains d k \<longleftrightarrow> dict_getitem d k \<noteq> None"
  by (simp add: dict_contains_def dict_getitem_def map_of_eq_None_iff)

lemma dict_contains_setitem: "dict_contains (dict_setitem d k v) k' \<longleftrightarrow> k' = k \<or> dict_contains d k'"
  by (simp add: dict_contains_getitem dict_getitem_setitem)

lemma init_lookup:
  "dict_getitem (if \<not> dict_contains d k then dict_setitem d k [] else d) k
     = Some (case dict_getitem d k of Some x \<Rightarrow> x | None \<Rightarrow> [])"
  by (cases "dict_getitem d k") (simp_all add: dict_contains_getitem dict_getitem_setitem)

lemma slices_of_Nil: "slices_of g a [] k = []"
  by (simp add: slices_of_def)

lemma slices_of_Cons: "slices_of g a ((turn, s) # ts) k =
   (if s = k then g a (turn_start turn * 1000) (turn_end turn * 1000) @ slices_of g a ts k else slices_of g a ts k)"
  by (simp add: slices_of_def)

lemma slices_of_append: "slices_of g a (xs @ ys) k = slices_of g a xs k @ slices_of g a ys k"
  by (simp add: slices_of_def)

lemma group_tracks_values:
  "\<exists>d'. group_tracks g a tracks d = Inr d' \<and>
     (\<forall>k. dict_getitem d' k =
        (case dict_getitem d k of
           Some acc \<Rightarrow> Some (acc @ slices_of g a tracks k)
         | None \<Rightarrow> if k \<in> set (map snd tracks) then Some (slices_of g a tracks k) else None))"
proof (induction tracks arbitrary: d)
  case Nil
  then show ?case by (auto simp: slices_of_Nil split: option.splits)
next
  case (Cons t tracks)
  obtain turn speaker where t: "t = (turn, speaker)" by (cases t)
  let ?seg = "g a (turn_start turn * 1000) (turn_end turn * 1000)"
  let ?d1 = "if \<not> dict_contains d speaker then dict_setitem d speaker [] else d"
  define acc where acc_eq: "acc = (case dict_getitem d speaker of Some x \<Rightarrow> x | None \<Rightarrow> [])"
  have acc: "dict_getitem ?d1 speaker = Some acc"
    unfolding acc_eq by (rule init_lookup)
  let ?d2 = "dict_setitem ?d1 speaker (acc @ ?seg)"
  have step: "group_tracks g a (t # tracks) d = group_tracks g a tracks ?d2"
    using acc by (simp add: t Let_def)
  have d2: "dict_getitem ?d2 k = (if k = speaker then Some (acc @ ?seg) else dict_getitem d k)" for k
    by (simp add: dict_getitem_setitem)
  from Cons.IH [of ?d2] obtain d' where d': "group_tracks g a tracks ?d2 = Inr d'"
    and v: "\<And>k. dict_getitem d' k =
        (case dict_getitem ?d2 k of
           Some acc \<Rightarrow> Some (acc @ slices_of g a tracks k)
         | None \<Rightarrow> if k \<in> set (map snd tracks) then Some (slices_of g a tracks k) else None)"
    by blast
  have "dict_getitem d' k =
        (case dict_getitem d k of
           Some acc \<Rightarrow> Some (acc @ slices_of g a (t # tracks) k)
         | None \<Rightarrow> if k \<in> set (map snd (t # tracks)) then Some (slices_of g a (t # tracks) k) else None)" for k
    unfolding v [of k] d2 [of k] t
    by (auto simp: slices_of_Cons acc_eq split: option.splits)
  then show ?case using d' step by simp
qed

lemma group_tracks_keys:
  "group_tracks g a tracks d = Inr d' \<Longrightarrow>
     map fst d' = map fst d @ filter (\<lambda>k. k \<notin> set (map fst d)) (first_seen (map snd tracks))"
proof (induction tracks arbitrary: d)
  case Nil
  then show ?case by simp
next
  case (Cons t tracks)
  obtain turn speaker where t: "t = (turn, speaker)" by (cases t)
  let ?seg = "g a (turn_start turn * 1000) (turn_end turn * 1000)"
  let ?d1 = "if \<not> dict_contains d speaker then dict_setitem d speaker [] else d"
  define acc where acc_eq: "acc = (case dict_getitem d speaker of Some x \<Rightarrow> x | None \<Rightarrow> [])"
  have acc: "dict_getitem ?d1 speaker = Some acc"
    unfolding acc_eq by (rule init_lookup)
  let ?d2 = "dict_setitem ?d1 speaker (acc @ ?seg)"
  have step: "group_tracks g a (t # tracks) d = group_tracks g a tracks ?d2"
    using acc by (simp add: t Let_def)
  have k2: "map fst ?d2 = (if speaker \<in> set (map fst d) then map fst d else map fst d @ [speaker])"
    by (simp add: keys_setitem dict_contains_setitem) (simp add: dict_contains_def)
  have ih: "map fst d' = map fst ?d2 @ filter (\<lambda>k. k \<notin> set (map fst ?d2)) (first_seen (map snd tracks))"
    using Cons.IH [of ?d2] Cons.prems step by simp
  show ?case
  proof (cases "speaker \<in> set (map fst d)")
    case True
    have "filter (\<lambda>k. k \<notin> set (map fst d)) (filter (\<lambda>y. y \<noteq> speaker) xs)
          = filter (\<lambda>k. k \<notin> set (map fst d)) xs" for xs
      using True by (induction xs) auto
    then show ?thesis using True ih k2 by (simp add: t)
  next
    case False
    have "filter (\<lambda>k. k \<notin> set (map fst d)) (filter (\<lambda>y. y \<noteq> speaker) xs)
          = filter (\<lambda>k. k \<notin> set (map fst d @ [speaker])) xs" for xs
      by (induction xs) auto
    then show ?thesis using False ih k2 by (simp add: t)
  qed
qed

lemma first_seen_set: "set (first_seen xs) = set xs"
  by (induction xs) auto

lemma first_seen_distinct: "distinct (first_seen xs)"
  by (induction xs) (auto simp: first_seen_set)

section \<open>Persisting one speaker\<close>

lemma save_speaker_fresh: "fs p = None \<Longrightarrow> save_speaker fs p b = Done (fs(p \<mapsto> Wav b))"
  by (simp add: save_speaker_def path_exists_def export_def)

lemma save_speaker_wav: "fs p = Some (Wav e) \<Longrightarrow> save_speaker fs p b = Done (fs(p \<mapsto> Wav (e @ b)))"
  by (simp add: save_speaker_def path_exists_def export_def from_wav_def)

lemma save_speaker_other: "fs p = Some (Other x) \<Longrightarrow> save_speaker fs p b = Raised (CouldntDecodeError p) fs"
  by (simp add: save_speaker_def path_exists_def export_def from_wav_def)

lemma save_all_wav: "fs p = Some (Wav e) \<Longrightarrow> save_all fs p bs = Done (fs(p \<mapsto> Wav (e @ concat bs)))"
proof (induction bs arbitrary: fs e)
  case Nil
  then show ?case by (simp add: map_upd_triv)
next
  case (Cons b bs)
  have "save_all (fs(p \<mapsto> Wav (e @ b))) p bs = Done ((fs(p \<mapsto> Wav (e @ b)))(p \<mapsto> Wav ((e @ b) @ concat bs)))"
    by (rule Cons.IH) simp
  then show ?case using Cons.prems by (auto simp: save_speaker_wav fun_eq_iff)
qed

lemma save_all_fresh: "fs p = None \<Longrightarrow> bs \<noteq> [] \<Longrightarrow> save_all fs p bs = Done (fs(p \<mapsto> Wav (concat bs)))"
proof (cases bs)
  case Nil
  assume "bs \<noteq> []" then show ?thesis using Nil by simp
next
  case (Cons b bs')
  assume "fs p = None"
  then show ?thesis using save_all_wav [of "fs(p \<mapsto> Wav b)" p b bs'] Cons
    by (simp add: save_speaker_fresh)
qed

lemma save_all_append:
  "save_all fs p (xs @ ys) =
     (case save_all fs p xs of Raised e fs' \<Rightarrow> Raised e fs' | Done fs' \<Rightarrow> save_all fs' p ys)"
  by (induction xs arbitrary: fs) (auto split: outcome.splits)

lemma save_speaker_frame: "p \<noteq> t \<Longrightarrow> final_fs (save_speaker fs t b) p = fs p"
  by (auto simp: save_speaker_def export_def split: sum.splits)

lemma save_speaker_other_kept:
  "fs p = Some (Other x) \<Longrightarrow> final_fs (save_speaker fs t b) p = Some (Other x)"
  by (cases "p = t") (simp_all add: save_speaker_other save_speaker_frame)

lemma save_speakers_other_kept:
  "fs p = Some (Other x) \<Longrightarrow> final_fs (save_speakers out base d fs) p = Some (Other x)"
proof (induction d arbitrary: fs)
  case Nil
  then show ?case by simp
next
  case (Cons kv d)
  obtain k v where kv: "kv = (k, v)" by (cases kv)
  show ?case
  proof (cases "save_speaker fs (speaker_file out base k) v")
    case (Done fs')
    then have "fs' p = Some (Other x)"
      using save_speaker_other_kept [of fs p x "speaker_file out base k" v] Cons.prems by simp
    then show ?thesis using Cons.IH [of fs'] Done kv by simp
  next
    case (Raised e fs')
    then have "fs' p = Some (Other x)"
      using save_speaker_other_kept [of fs p x "speaker_file out base k" v] Cons.prems by simp
    then show ?thesis using Raised kv by simp
  qed
qed

lemma save_speakers_frame:
  "p \<notin> speaker_file out base ` set (map fst d) \<Longrightarrow> final_fs (save_speakers out base d fs) p = fs p"
proof (induction d arbitrary: fs)
  case Nil
  then show ?case by simp
next
  case (Cons kv d)
  obtain k v where kv: "kv = (k, v)" by (cases kv)
  have ne: "p \<noteq> speaker_file out base k" using Cons.prems kv by auto
  have rest: "p \<notin> speaker_file out base ` set (map fst d)" using Cons.prems by auto
  show ?case
  proof (cases "save_speaker fs (speaker_file out base k) v")
    case (Done fs')
    then have "fs' p = fs p" using save_speaker_frame [OF ne, of fs v] by simp
    then show ?thesis using Cons.IH [OF rest, of fs'] Done kv by simp
  next
    case (Raised e fs')
    then have "fs' p = fs p" using save_speaker_frame [OF ne, of fs v] by simp
    then show ?thesis using Raised kv by simp
  qed
qed

section \<open>File names\<close>

lemma digit_char_cases:
  "d < 10 \<Longrightarrow> digit_char d \<in> set ''0123456789'' \<and> digit_val (digit_char d) = d"
proof -
  assume "d < 10"
  then consider "d = 0" | "d = 1" | "d = 2" | "d = 3" | "d = 4" | "d = 5" | "d = 6" | "d = 7"
    | "d = 8" | "d = 9" by atomize_elim arith
  then show ?thesis
    by cases (simp_all add: digit_char_def digit_val_def)
qed

lemma digit_val_digit_char: "digit_val (digit_char d) = d mod 10"
  using digit_char_cases [of "d mod 10"] by (simp add: digit_char_def)

lemma digit_char_not_underscore: "digit_char d \<noteq> CHR ''_''"
  using digit_char_cases [of "d mod 10"] by (auto simp add: digit_char_def)

lemma nat_of_str_snoc: "nat_of_str (s @ [c]) = 10 * nat_of_str s + digit_val c"
  by (simp add: nat_of_str_def)

lemma nat_of_str_str_nat: "nat_of_str (str_nat n) = n"
proof (induction n rule: str_nat.induct)
  case (1 n)
  show ?case
  proof (cases "n < 10")
    case True
    then show ?thesis
      by (subst str_nat.simps) (simp add: nat_of_str_def digit_val_digit_char)
  next
    case False
    then have "nat_of_str (str_nat (n div 10)) = n div 10" using "1.IH" by simp
    then show ?thesis using False
      by (subst str_nat.simps) (simp add: nat_of_str_snoc digit_val_digit_char)
  qed
qed

lemma str_nat_inject: "str_nat m = str_nat n \<longleftrightarrow> m = n"
  by (metis nat_of_str_str_nat)

lemma str_nat_no_underscore: "CHR ''_'' \<notin> set (str_nat n)"
proof (induction n rule: str_nat.induct)
  case (1 n)
  show ?case
  proof (cases "n < 10")
    case True
    then show ?thesis
      by (subst str_nat.simps) (simp add: digit_char_not_underscore [symmetric])
  next
    case False
    then have "CHR ''_'' \<notin> set (str_nat (n div 10))" using "1.IH" by simp
    then show ?thesis using False
      by (subst str_nat.simps) (simp add: digit_char_not_underscore [symmetric])
  qed
qed

lemma split_at_last:
  "xs @ c # d1 = ys @ c # d2 \<Longrightarrow> c \<notin> set d1 \<Longrightarrow> c \<notin> set d2 \<Longrightarrow> xs = ys \<and> d1 = d2"
proof -
  assume eq: "xs @ c # d1 = ys @ c # d2" and n1: "c \<notin> set d1" and n2: "c \<notin> set d2"
  have "rev (xs @ c # d1) = rev (ys @ c # d2)" using eq by simp
  then have r: "rev d1 @ c # rev xs = rev d2 @ c # rev ys" by simp
  have t1: "takeWhile (\<lambda>x. x \<noteq> c) (rev d1 @ c # rev xs) = rev d1"
    using n1 by (subst takeWhile_append2) auto
  have t2: "takeWhile (\<lambda>x. x \<noteq> c) (rev d2 @ c # rev ys) = rev d2"
    using n2 by (subst takeWhile_append2) auto
  have "rev d1 = rev d2" using t1 t2 r by simp
  then have d: "d1 = d2" by simp
  then show ?thesis using eq by simp
qed

lemma path_join_inject:
  "path_join a (base @ CHR ''_'' # x) = path_join a (base @ CHR ''_'' # y) \<longleftrightarrow> x = y"
  by (cases base) (auto simp: path_join_def)

lemma speaker_file_inject:
  "speaker_file out base s1 = speaker_file out base s2 \<longleftrightarrow> s1 = s2"
  by (simp add: speaker_file_def path_join_inject)

lemma speaker_segment_file_inject:
  "speaker_segment_file out base s1 n1 = speaker_segment_file out base s2 n2 \<longleftrightarrow> s1 = s2 \<and> n1 = n2"
proof
  assume "speaker_segment_file out base s1 n1 = speaker_segment_file out base s2 n2"
  then have "s1 @ ''_segment_'' @ str_nat n1 @ ''.wav'' = s2 @ ''_segment_'' @ str_nat n2 @ ''.wav''"
    by (simp add: speaker_segment_file_def path_join_inject)
  then have "(s1 @ ''_segment_'' @ str_nat n1) @ ''.wav'' = (s2 @ ''_segment_'' @ str_nat n2) @ ''.wav''"
    by simp
  then have "s1 @ ''_segment_'' @ str_nat n1 = s2 @ ''_segment_'' @ str_nat n2"
    by (simp only: append_same_eq)
  then have "(s1 @ ''_segment'') @ CHR ''_'' # str_nat n1 = (s2 @ ''_segment'') @ CHR ''_'' # str_nat n2"
    by simp
  then have "s1 @ ''_segment'' = s2 @ ''_segment'' \<and> str_nat n1 = str_nat n2"
    by (rule split_at_last) (rule str_nat_no_underscore)+
  then show "s1 = s2 \<and> n1 = n2" by (simp add: str_nat_inject)
next
  assume "s1 = s2 \<and> n1 = n2" then show "speaker_segment_file out base s1 n1 = speaker_segment_file out base s2 n2" by simp
qed

lemma str_contains_prefix: "str_contains (sub @ ys) sub"
proof (cases "sub @ ys")
  case Nil
  then show ?thesis by simp
next
  case (Cons a list)
  have "take (length sub) (sub @ ys) = sub" by simp
  then have "take (length sub) (a # list) = sub" unfolding Cons .
  then show ?thesis unfolding Cons by simp
qed

lemma str_contains_append: "str_contains (xs @ sub @ ys) sub"
proof (induction xs)
  case Nil
  then show ?case using str_contains_prefix by simp
next
  case (Cons x xs)
  then show ?case by simp
qed

lemma common_prefix:
  assumes "s @ l = x @ r" and "length x \<le> length s"
  shows "x = take (length x) s"
proof -
  have "take (length x) (s @ l) = take (length x) (x @ r)" using assms(1) by simp
  then show ?thesis using assms(2) by simp
qed

lemma overlap_short:
  assumes eq: "''_speaker_'' @ l1 = x @ ''_speaker_'' @ l2"
    and x: "x \<noteq> []" and len: "length x < 9"
  shows "l1 = ''speaker_'' @ l2"
proof -
  have px: "x = take (length x) ''_speaker_''"
    using common_prefix [OF eq] len by simp
  have "0 < length x" using x by simp
  then consider "length x = 1" | "length x = 2" | "length x = 3" | "length x = 4"
    | "length x = 5" | "length x = 6" | "length x = 7" | "length x = 8"
    using len by atomize_elim arith
  then show ?thesis
  proof cases
    case 1 then show ?thesis using eq px by simp
  next
    case 2 then show ?thesis using eq px by simp
  next
    case 3 then show ?thesis using eq px by simp
  next
    case 4 then show ?thesis using eq px by simp
  next
    case 5 then show ?thesis using eq px by simp
  next
    case 6 then show ?thesis using eq px by simp
  next
    case 7 then show ?thesis using eq px by simp
  next
    case 8 then show ?thesis using eq px by simp
  qed
qed

lemma overlap_long:
  assumes eq: "''_speaker_'' @ l1 = x @ ''_speaker_'' @ l2" and len: "9 \<le> length x"
  shows "\<exists>y. l1 = y @ ''_speaker_'' @ l2"
proof -
  have "take 9 (''_speaker_'' @ l1) = take 9 (x @ ''_speaker_'' @ l2)" using eq by simp
  then have "''_speaker_'' = take 9 x" using len by simp
  then have "x = ''_speaker_'' @ drop 9 x" by (metis append_take_drop_id)
  then have "''_speaker_'' @ l1 = ''_speaker_'' @ drop 9 x @ ''_speaker_'' @ l2"
    using eq by (metis append.assoc)
  then show ?thesis by simp
qed

lemma collision_label:
  assumes eq: "b1 @ ''_speaker_'' @ l1 = b2 @ ''_speaker_'' @ l2"
    and len: "length b1 < length b2"
  shows "str_contains l1 ''speaker_''"
proof -
  obtain x where b2: "b2 = b1 @ x" and x: "x \<noteq> []"
    and r: "''_speaker_'' @ l1 = x @ ''_speaker_'' @ l2"
    using eq len by (auto simp: append_eq_append_conv2)
  show ?thesis
  proof (cases "length x < 9")
    case True
    then have "l1 = ''speaker_'' @ l2" using overlap_short [OF r x] by simp
    then show ?thesis using str_contains_prefix [of "''speaker_''" l2] by simp
  next
    case False
    then obtain y where "l1 = y @ ''_speaker_'' @ l2" using overlap_long [OF r] by auto
    then have "l1 = (y @ ''_'') @ ''speaker_'' @ l2" by simp
    then show ?thesis using str_contains_append [of "y @ ''_''" "''speaker_''" l2] by simp
  qed
qed

lemma name_pair_inject:
  assumes eq: "b1 @ ''_speaker_'' @ l1 = b2 @ ''_speaker_'' @ l2"
    and n1: "\<not> str_contains l1 ''speaker_''" and n2: "\<not> str_contains l2 ''speaker_''"
  shows "b1 = b2 \<and> l1 = l2"
proof -
  have "\<not> length b1 < length b2" using collision_label [OF eq] n1 by blast
  moreover have "\<not> length b2 < length b1" using collision_label [OF eq [symmetric]] n2 by blast
  ultimately have "length b1 = length b2" by simp
  then show ?thesis using eq by simp
qed

lemma path_join_inject_names:
  "CHR ''/'' \<notin> set b1 \<Longrightarrow> CHR ''/'' \<notin> set b2 \<Longrightarrow>
     path_join a (b1 @ CHR ''_'' # x) = path_join a (b2 @ CHR ''_'' # y)
       \<longleftrightarrow> b1 @ CHR ''_'' # x = b2 @ CHR ''_'' # y"
  by (cases b1; cases b2) (auto simp: path_join_def)

lemma speaker_file_same_label:
  "CHR ''/'' \<notin> set b1 \<Longrightarrow> CHR ''/'' \<notin> set b2 \<Longrightarrow>
     speaker_file out b1 s = speaker_file out b2 s \<longleftrightarrow> b1 = b2"
  by (simp add: speaker_file_def path_join_inject_names)

lemma speaker_file_pair_inject:
  assumes "CHR ''/'' \<notin> set b1" "CHR ''/'' \<notin> set b2"
    and "\<not> str_contains s1 ''speaker_''" "\<not> str_contains s2 ''speaker_''"
  shows "speaker_file out b1 s1 = speaker_file out b2 s2 \<longleftrightarrow> b1 = b2 \<and> s1 = s2"
proof
  assume "speaker_file out b1 s1 = speaker_file out b2 s2"
  then have "b1 @ ''_speaker_'' @ s1 @ ''.wav'' = b2 @ ''_speaker_'' @ s2 @ ''.wav''"
    using assms(1,2) by (simp add: speaker_file_def path_join_inject_names)
  then have "(b1 @ ''_speaker_'' @ s1) @ ''.wav'' = (b2 @ ''_speaker_'' @ s2) @ ''.wav''"
    by simp
  then have "b1 @ ''_speaker_'' @ s1 = b2 @ ''_speaker_'' @ s2"
    by (simp only: append_same_eq)
  then show "b1 = b2 \<and> s1 = s2" using name_pair_inject assms(3,4) by blast
next
  assume "b1 = b2 \<and> s1 = s2"
  then show "speaker_file out b1 s1 = speaker_file out b2 s2" by simp
qed

lemma segment_name_split:
  assumes "speaker_segment_file out b1 s1 n1 = speaker_segment_file out b2 s2 n2"
    and "CHR ''/'' \<notin> set b1" "CHR ''/'' \<notin> set b2"
  shows "n1 = n2 \<and> b1 @ ''_speaker_'' @ s1 = b2 @ ''_speaker_'' @ s2"
proof -
  have "b1 @ ''_speaker_'' @ s1 @ ''_segment_'' @ str_nat n1 @ ''.wav''
        = b2 @ ''_speaker_'' @ s2 @ ''_segment_'' @ str_nat n2 @ ''.wav''"
    using assms by (simp add: speaker_segment_file_def path_join_inject_names)
  then have "(b1 @ ''_speaker_'' @ s1 @ ''_segment_'' @ str_nat n1) @ ''.wav''
        = (b2 @ ''_speaker_'' @ s2 @ ''_segment_'' @ str_nat n2) @ ''.wav''"
    by simp
  then have "b1 @ ''_speaker_'' @ s1 @ ''_segment_'' @ str_nat n1
        = b2 @ ''_speaker_'' @ s2 @ ''_segment_'' @ str_nat n2"
    by (simp only: append_same_eq)
  then have "(b1 @ ''_speaker_'' @ s1 @ ''_segment'') @ CHR ''_'' # str_nat n1
        = (b2 @ ''_speaker_'' @ s2 @ ''_segment'') @ CHR ''_'' # str_nat n2"
    by simp
  then have "b1 @ ''_speaker_'' @ s1 @ ''_segment'' = b2 @ ''_speaker_'' @ s2 @ ''_segment''
               \<and> str_nat n1 = str_nat n2"
    by (rule split_at_last) (rule str_nat_no_underscore)+
  then have "(b1 @ ''_speaker_'' @ s1) @ ''_segment'' = (b2 @ ''_speaker_'' @ s2) @ ''_segment''"
    and "n1 = n2"
    by (simp_all add: str_nat_inject)
  then show ?thesis by (simp only: append_same_eq)
qed

lemma speaker_segment_file_same_label:
  "CHR ''/'' \<notin> set b1 \<Longrightarrow> CHR ''/'' \<notin> set b2 \<Longrightarrow>
     speaker_segment_file out b1 s n1 = speaker_segment_file out b2 s n2 \<longleftrightarrow> b1 = b2 \<and> n1 = n2"
  using segment_name_split [of out b1 s n1 b2 s n2] by auto

lemma speaker_segment_file_pair_inject:
  assumes "CHR ''/'' \<notin> set b1" "CHR ''/'' \<notin> set b2"
    and "\<not> str_contains s1 ''speaker_''" "\<not> str_contains s2 ''speaker_''"
  shows "speaker_segment_file out b1 s1 n1 = speaker_segment_file out b2 s2 n2
           \<longleftrightarrow> b1 = b2 \<and> s1 = s2 \<and> n1 = n2"
  using segment_name_split [of out b1 s1 n1 b2 s2 n2] name_pair_inject [of b1 s1 b2 s2] assms
  by auto

section \<open>The loops\<close>

lemma export_tracks_override:
  "export_tracks g a out base tracks n fs = fs ++ export_tracks g a out base tracks n Map.empty"
proof (induction tracks arbitrary: n fs)
  case Nil
  then show ?case by simp
next
  case (Cons t tracks)
  obtain turn speaker where t: "t = (turn, speaker)" by (cases t)
  let ?p = "speaker_segment_file out base speaker n"
  let ?v = "Wav (g a (turn_start turn * 1000) (turn_end turn * 1000))"
  have "export_tracks g a out base (t # tracks) n fs
          = export_tracks g a out base tracks (n + 1) (fs(?p \<mapsto> ?v))"
    by (simp add: t export_def)
  also have "\<dots> = fs(?p \<mapsto> ?v) ++ export_tracks g a out base tracks (n + 1) Map.empty"
    by (rule Cons.IH)
  also have "\<dots> = fs ++ ([?p \<mapsto> ?v] ++ export_tracks g a out base tracks (n + 1) Map.empty)"
    by (simp add: map_add_upd_left fun_eq_iff map_add_def split: option.splits)
  also have "[?p \<mapsto> ?v] ++ export_tracks g a out base tracks (n + 1) Map.empty
          = export_tracks g a out base tracks (n + 1) [?p \<mapsto> ?v]"
    by (rule Cons.IH [symmetric])
  also have "\<dots> = export_tracks g a out base (t # tracks) n Map.empty"
    by (simp add: t export_def)
  finally show ?case .
qed

lemma export_tracks_frame:
  "(\<forall>j<length tracks. p \<noteq> speaker_segment_file out base (snd (tracks ! j)) (n + j))
     \<Longrightarrow> export_tracks g a out base tracks n fs p = fs p"
proof (induction tracks arbitrary: n fs)
  case Nil
  then show ?case by simp
next
  case (Cons t tracks)
  obtain turn speaker where t: "t = (turn, speaker)" by (cases t)
  have here: "p \<noteq> speaker_segment_file out base speaker n"
    using Cons.prems [rule_format, of 0] by (simp add: t)
  have later: "\<forall>j<length tracks. p \<noteq> speaker_segment_file out base (snd (tracks ! j)) (Suc n + j)"
    using Cons.prems by (auto dest: spec [of _ "Suc j" for j])
  show ?case
    using Cons.IH [OF later] here by (simp add: t export_def)
qed

lemma export_tracks_content:
  "i < length tracks \<Longrightarrow>
     export_tracks g a out base tracks n fs
       (speaker_segment_file out base (snd (tracks ! i)) (n + i))
     = Some (Wav (slice_of g a (tracks ! i)))"
proof (induction tracks arbitrary: n fs i)
  case Nil
  then show ?case by simp
next
  case (Cons t tracks)
  obtain turn speaker where t: "t = (turn, speaker)" by (cases t)
  show ?case
  proof (cases i)
    case 0
    have "\<forall>j<length tracks. speaker_segment_file out base speaker n
            \<noteq> speaker_segment_file out base (snd (tracks ! j)) (Suc n + j)"
      by (simp add: speaker_segment_file_inject)
    then show ?thesis
      using export_tracks_frame [of tracks "speaker_segment_file out base speaker n" out base "Suc n" g a]
      by (simp add: 0 t export_def slice_of_def)
  next
    case (Suc k)
    then have "k < length tracks" using Cons.prems by simp
    then show ?thesis
      using Cons.IH [of k "Suc n"] by (simp add: Suc t)
  qed
qed

lemma export_tracks_dom_changed:
  "export_tracks g a out base tracks n fs p \<noteq> fs p \<Longrightarrow>
     \<exists>j<length tracks. p = speaker_segment_file out base (snd (tracks ! j)) (n + j)"
  using export_tracks_frame [of tracks p out base n g a fs] by blast

lemma export_tracks_rerun:
  "export_tracks g a out base tracks n (export_tracks g a out base tracks n fs)
     = export_tracks g a out base tracks n fs"
  by (metis export_tracks_override map_add_assoc map_add_subsumed2 map_le_refl)

lemma save_speakers_append:
  "save_speakers out base (xs @ ys) fs =
     (case save_speakers out base xs fs of
        Raised e fs' \<Rightarrow> Raised e fs'
      | Done fs' \<Rightarrow> save_speakers out base ys fs')"
  by (induction xs arbitrary: fs) (auto split: outcome.splits)

lemma process_files_append:
  "process_files P g i out (xs @ ys) fs =
     (case process_files P g i out xs fs of
        Raised e fs' \<Rightarrow> Raised e fs'
      | Done fs' \<Rightarrow> process_files P g i out ys fs')"
  by (induction xs arbitrary: fs) (auto split: outcome.splits)

lemma extract_files_append:
  "extract_files P g i out (xs @ ys) fs =
     (case extract_files P g i out xs fs of
        Raised e fs' \<Rightarrow> Raised e fs'
      | Done fs' \<Rightarrow> extract_files P g i out ys fs')"
  by (induction xs arbitrary: fs) (auto split: outcome.splits)

lemma save_speaker_agree:
  "fs1 t = fs2 t \<Longrightarrow>
     raised_error (save_speaker fs1 t b) = raised_error (save_speaker fs2 t b)
     \<and> final_fs (save_speaker fs1 t b) t = final_fs (save_speaker fs2 t b) t"
  by (auto simp: save_speaker_def raised_error_def path_exists_def from_wav_def export_def
           split: option.splits file_content.splits)

lemma save_speakers_agree:
  "\<forall>k \<in> set (map fst d). fs1 (speaker_file out base k) = fs2 (speaker_file out base k) \<Longrightarrow>
     raised_error (save_speakers out base d fs1) = raised_error (save_speakers out base d fs2)
     \<and> (\<forall>k \<in> set (map fst d).
           final_fs (save_speakers out base d fs1) (speaker_file out base k)
             = final_fs (save_speakers out base d fs2) (speaker_file out base k))"
proof (induction d arbitrary: fs1 fs2)
  case Nil
  then show ?case by (simp add: raised_error_def)
next
  case (Cons kv d)
  obtain k v where kv: "kv = (k, v)" by (cases kv)
  let ?t = "speaker_file out base k"
  let ?r1 = "save_speaker fs1 ?t v" and ?r2 = "save_speaker fs2 ?t v"
  have here: "fs1 ?t = fs2 ?t" using Cons.prems by (simp add: kv)
  have st: "raised_error ?r1 = raised_error ?r2" and tt: "final_fs ?r1 ?t = final_fs ?r2 ?t"
    using save_speaker_agree [of fs1 ?t fs2 v] here by auto
  have agree: "final_fs ?r1 (speaker_file out base k') = final_fs ?r2 (speaker_file out base k')"
    if "k' \<in> set (map fst (kv # d))" for k'
  proof (cases "speaker_file out base k' = ?t")
    case True
    then show ?thesis using tt by simp
  next
    case False
    have "fs1 (speaker_file out base k') = fs2 (speaker_file out base k')"
      using Cons.prems that by blast
    then show ?thesis using False
      by (simp add: save_speaker_frame)
  qed
  show ?case
  proof (cases ?r1)
    case (Raised e fs1')
    then obtain fs2' where r2: "?r2 = Raised e fs2'"
      using st by (cases ?r2) (auto simp: raised_error_def)
    show ?thesis using Raised r2 agree by (auto simp: kv raised_error_def)
  next
    case (Done fs1')
    then obtain fs2' where r2: "?r2 = Done fs2'"
      using st by (cases ?r2) (auto simp: raised_error_def)
    have a': "\<forall>k' \<in> set (map fst d). fs1' (speaker_file out base k') = fs2' (speaker_file out base k')"
      using agree Done r2 by auto
    have top: "fs1' ?t = fs2' ?t" using agree [of k] Done r2 by (simp add: kv)
    have ih: "raised_error (save_speakers out base d fs1') = raised_error (save_speakers out base d fs2')"
      and ih2: "\<forall>k' \<in> set (map fst d).
           final_fs (save_speakers out base d fs1') (speaker_file out base k')
             = final_fs (save_speakers out base d fs2') (speaker_file out base k')"
      using Cons.IH [OF a'] by auto
    have "final_fs (save_speakers out base d fs1') ?t = final_fs (save_speakers out base d fs2') ?t"
    proof (cases "?t \<in> speaker_file out base ` set (map fst d)")
      case True
      then show ?thesis using ih2 by auto
    next
      case False
      then show ?thesis using top by (simp add: save_speakers_frame)
    qed
    then show ?thesis using Done r2 ih ih2 by (simp add: kv)
  qed
qed

lemma save_speakers_wav_kept:
  "fs p = Some (Wav a) \<Longrightarrow> save_speakers out base d fs = Done fs' \<Longrightarrow> \<exists>a'. fs' p = Some (Wav a')"
proof (induction d arbitrary: fs a)
  case Nil
  then show ?case by simp
next
  case (Cons kv d)
  obtain k v where kv: "kv = (k, v)" by (cases kv)
  obtain fs1 where one: "save_speaker fs (speaker_file out base k) v = Done fs1"
    and rest: "save_speakers out base d fs1 = Done fs'"
    using Cons.prems(2) by (auto simp: kv split: outcome.splits)
  have "\<exists>a1. fs1 p = Some (Wav a1)"
  proof (cases "p = speaker_file out base k")
    case True
    then show ?thesis using one Cons.prems(1) by (auto simp: save_speaker_wav)
  next
    case False
    then show ?thesis
      using save_speaker_frame [of p "speaker_file out base k" fs v] one Cons.prems(1)
      by simp
  qed
  then show ?case using Cons.IH rest by blast
qed

lemma save_speaker_written:
  "save_speaker fs t b = Done fs' \<Longrightarrow> \<exists>a. fs' t = Some (Wav a)"
  by (auto simp: save_speaker_def export_def split: if_splits sum.splits)

lemma save_speakers_written:
  "save_speakers out base d fs = Done fs' \<Longrightarrow> k \<in> set (map fst d) \<Longrightarrow>
     \<exists>a. fs' (speaker_file out base k) = Some (Wav a)"
proof (induction d arbitrary: fs)
  case Nil
  then show ?case by simp
next
  case (Cons kv d)
  obtain k0 v where kv: "kv = (k0, v)" by (cases kv)
  obtain fs1 where one: "save_speaker fs (speaker_file out base k0) v = Done fs1"
    and rest: "save_speakers out base d fs1 = Done fs'"
    using Cons.prems(1) by (auto simp: kv split: outcome.splits)
  show ?case
  proof (cases "k \<in> set (map fst d)")
    case True
    then show ?thesis using Cons.IH [OF rest] by simp
  next
    case False
    then have "k = k0" using Cons.prems(2) by (simp add: kv)
    then obtain a where "fs1 (speaker_file out base k) = Some (Wav a)"
      using save_speaker_written [OF one] by blast
    then show ?thesis using save_speakers_wav_kept rest by blast
  qed
qed

lemma save_speaker_done_content:
  "save_speaker fs t v = Done fs' \<Longrightarrow> fs' t = Some (Wav (existing_audio fs t @ v))"
  by (auto simp: save_speaker_def path_exists_def from_wav_def export_def existing_audio_def
           split: option.splits file_content.splits if_splits)

lemma save_speakers_content:
  "distinct (map fst d) \<Longrightarrow> save_speakers out base d fs = Done fs1 \<Longrightarrow> (k, v) \<in> set d \<Longrightarrow>
     fs1 (speaker_file out base k) = Some (Wav (existing_audio fs (speaker_file out base k) @ v))"
proof (induction d arbitrary: fs)
  case Nil
  then show ?case by simp
next
  case (Cons kv d)
  obtain k0 v0 where kv: "kv = (k0, v0)" by (cases kv)
  let ?t0 = "speaker_file out base k0"
  obtain fsA where one: "save_speaker fs ?t0 v0 = Done fsA"
    and rest: "save_speakers out base d fsA = Done fs1"
    using Cons.prems(2) by (auto simp: kv split: outcome.splits)
  have dist: "distinct (map fst d)" and fresh: "k0 \<notin> fst ` set d"
    using Cons.prems(1) by (simp_all add: kv)
  show ?case
  proof (cases "(k, v) \<in> set d")
    case True
    then have "fst (k, v) \<in> fst ` set d" by (rule imageI)
    then have "k \<noteq> k0" using fresh by auto
    then have ne: "speaker_file out base k \<noteq> ?t0" by (simp add: speaker_file_inject)
    have "fsA (speaker_file out base k) = fs (speaker_file out base k)"
      using save_speaker_frame [OF ne, of fs v0] one by simp
    then have "existing_audio fsA (speaker_file out base k) = existing_audio fs (speaker_file out base k)"
      by (simp add: existing_audio_def)
    then show ?thesis using Cons.IH [OF dist rest True] by simp
  next
    case False
    then have here: "k = k0" "v = v0" using Cons.prems(3) by (simp_all add: kv)
    have "?t0 \<notin> speaker_file out base ` set (map fst d)"
      using fresh by (force simp: speaker_file_inject)
    then have "fs1 ?t0 = fsA ?t0"
      using save_speakers_frame [of ?t0 out base d fsA] rest by simp
    then show ?thesis using save_speaker_done_content [OF one] here by simp
  qed
qed

lemma save_speaker_done:
  "\<forall>b. fs t \<noteq> Some (Other b) \<Longrightarrow> \<exists>fs'. save_speaker fs t v = Done fs'"
  by (auto simp: save_speaker_def path_exists_def from_wav_def
           split: option.splits file_content.splits)

lemma save_speakers_done:
  "\<forall>k \<in> set (map fst d). \<forall>b. fs (speaker_file out base k) \<noteq> Some (Other b) \<Longrightarrow>
     \<exists>fs1. save_speakers out base d fs = Done fs1"
proof (induction d arbitrary: fs)
  case Nil
  then show ?case by simp
next
  case (Cons kv d)
  obtain k0 v0 where kv: "kv = (k0, v0)" by (cases kv)
  let ?t0 = "speaker_file out base k0"
  have "\<forall>b. fs ?t0 \<noteq> Some (Other b)" using Cons.prems by (simp add: kv)
  then obtain fsA where one: "save_speaker fs ?t0 v0 = Done fsA"
    using save_speaker_done by blast
  have "\<forall>k \<in> set (map fst d). \<forall>b. fsA (speaker_file out base k) \<noteq> Some (Other b)"
  proof (intro ballI allI)
    fix k b assume k: "k \<in> set (map fst d)"
    show "fsA (speaker_file out base k) \<noteq> Some (Other b)"
    proof (cases "speaker_file out base k = ?t0")
      case True
      then show ?thesis using save_speaker_done_content [OF one] by simp
    next
      case False
      have "fsA (speaker_file out base k) = fs (speaker_file out base k)"
        using save_speaker_frame [OF False, of fs v0] one by simp
      moreover have "fs (speaker_file out base k) \<noteq> Some (Other b)"
        using Cons.prems k by auto
      ultimately show ?thesis by simp
    qed
  qed
  then obtain fs1 where "save_speakers out base d fsA = Done fs1"
    using Cons.IH by blast
  then show ?case using one by (simp add: kv)
qed

lemma process_file_unfold:
  "pipeline (path_join input audio_file) fs = Inr tracks \<Longrightarrow>
   from_wav fs (path_join input audio_file) = Inr audio \<Longrightarrow>
   group_tracks getitem audio tracks [] = Inr d \<Longrightarrow>
   process_file pipeline getitem input out audio_file fs
     = save_speakers out (splitext_root audio_file) d fs"
  by (simp add: process_file_def Let_def)

lemma group_tracks_result:
  "\<exists>d. group_tracks g a tracks [] = Inr d
       \<and> distinct (map fst d)
       \<and> set (map fst d) = snd ` set tracks
       \<and> (\<forall>k \<in> snd ` set tracks. (k, slices_of g a tracks k) \<in> set d)"
proof -
  obtain d where d: "group_tracks g a tracks [] = Inr d"
    and v: "\<And>k. dict_getitem d k =
        (case dict_getitem [] k of
           Some acc \<Rightarrow> Some (acc @ slices_of g a tracks k)
         | None \<Rightarrow> if k \<in> set (map snd tracks) then Some (slices_of g a tracks k) else None)"
    using group_tracks_values [of g a tracks "[]"] by blast
  have keys: "map fst d = first_seen (map snd tracks)"
    using group_tracks_keys [OF d] by simp
  have "distinct (map fst d)" unfolding keys by (rule first_seen_distinct)
  moreover have "set (map fst d) = snd ` set tracks"
    unfolding keys by (simp add: first_seen_set)
  moreover have "(k, slices_of g a tracks k) \<in> set d" if "k \<in> snd ` set tracks" for k
  proof -
    have "map_of d k = Some (slices_of g a tracks k)"
      using v [of k] that by (simp add: dict_getitem_def)
    then show ?thesis by (rule map_of_SomeD)
  qed
  ultimately show ?thesis using d by blast
qed

lemma process_file_pass:
  assumes p: "pipeline (path_join input audio_file) fs = Inr tracks"
    and a: "from_wav fs (path_join input audio_file) = Inr audio"
  shows "(\<forall>q. final_fs (process_file pipeline getitem input out audio_file fs) q \<noteq> fs q \<longrightarrow>
            (\<exists>speaker \<in> snd ` set tracks.
               q = speaker_file out (splitext_root audio_file) speaker))
         \<and> (\<forall>fs2. process_file pipeline getitem input out audio_file fs = Done fs2 \<longrightarrow>
              (\<forall>speaker \<in> snd ` set tracks.
                 fs2 (speaker_file out (splitext_root audio_file) speaker)
                   = Some (Wav (existing_audio fs
                                  (speaker_file out (splitext_root audio_file) speaker)
                                @ slices_of getitem audio tracks speaker))))
         \<and> ((\<forall>speaker \<in> snd ` set tracks. \<forall>b.
                fs (speaker_file out (splitext_root audio_file) speaker) \<noteq> Some (Other b)) \<longrightarrow>
              (\<exists>fs2. process_file pipeline getitem input out audio_file fs = Done fs2))"
proof -
  let ?base = "splitext_root audio_file"
  obtain d where d: "group_tracks getitem audio tracks [] = Inr d"
    and dist: "distinct (map fst d)"
    and keys: "set (map fst d) = snd ` set tracks"
    and vals: "\<forall>k \<in> snd ` set tracks. (k, slices_of getitem audio tracks k) \<in> set d"
    using group_tracks_result [of getitem audio tracks] by blast
  have run: "process_file pipeline getitem input out audio_file fs
               = save_speakers out ?base d fs"
    using p a d by (rule process_file_unfold)
  have one: "\<forall>q. final_fs (process_file pipeline getitem input out audio_file fs) q \<noteq> fs q \<longrightarrow>
            (\<exists>speaker \<in> snd ` set tracks. q = speaker_file out ?base speaker)"
    unfolding run using save_speakers_frame [of _ out ?base d fs] keys by blast
  have two: "\<forall>fs2. process_file pipeline getitem input out audio_file fs = Done fs2 \<longrightarrow>
              (\<forall>speaker \<in> snd ` set tracks.
                 fs2 (speaker_file out ?base speaker)
                   = Some (Wav (existing_audio fs (speaker_file out ?base speaker)
                                @ slices_of getitem audio tracks speaker)))"
    unfolding run using save_speakers_content [OF dist] vals by blast
  have three: "(\<forall>speaker \<in> snd ` set tracks. \<forall>b.
                fs (speaker_file out ?base speaker) \<noteq> Some (Other b)) \<longrightarrow>
              (\<exists>fs2. process_file pipeline getitem input out audio_file fs = Done fs2)"
  proof
    assume ok: "\<forall>speaker \<in> snd ` set tracks. \<forall>b.
                fs (speaker_file out ?base speaker) \<noteq> Some (Other b)"
    have "\<forall>k \<in> set (map fst d). \<forall>b. fs (speaker_file out ?base k) \<noteq> Some (Other b)"
      unfolding keys by (rule ok)
    then show "\<exists>fs2. process_file pipeline getitem input out audio_file fs = Done fs2"
      unfolding run by (rule save_speakers_done)
  qed
  show ?thesis using one two three by (intro conjI)
qed

section \<open>Grouping by speaker\<close>

text \<open>
  C1. In the mode with one file per speaker, the loop over the tracks never raises, and
  for every speaker label of the stream the buffer it leaves under that label is the
  concatenation, in emission order, of the slices cut for that speaker's tracks: nothing
  is reordered, dropped or filled in. A label that does not occur has no buffer.
\<close>

theorem speaker_buffer_is_concatenation:
  "\<exists>speaker_segments.
     group_tracks getitem audio tracks [] = Inr speaker_segments \<and>
     (\<forall>speaker. dict_getitem speaker_segments speaker =
        (if speaker \<in> set (map snd tracks)
         then Some (slices_of getitem audio tracks speaker) else None))"
  using group_tracks_values [of getitem audio tracks "[]"]
  by (simp add: dict_getitem_def)

theorem speaker_buffer_is_concatenation_witness:
  "\<exists>speaker_segments.
     group_tracks getitem_ms [10, 11, 12, 13, 14 :: nat]
       [(\<lparr>turn_start = 0, turn_end = 2 / 1000\<rparr>, ''A''),
        (\<lparr>turn_start = 2 / 1000, turn_end = 3 / 1000\<rparr>, ''B''),
        (\<lparr>turn_start = 3 / 1000, turn_end = 5 / 1000\<rparr>, ''A'')] [] = Inr speaker_segments \<and>
     dict_getitem speaker_segments ''A'' = Some [10, 11, 13, 14] \<and>
     dict_getitem speaker_segments ''B'' = Some [12] \<and>
     dict_getitem speaker_segments ''C'' = None"
proof -
  let ?tracks = "[(\<lparr>turn_start = 0, turn_end = 2 / 1000\<rparr>, ''A''),
        (\<lparr>turn_start = 2 / 1000, turn_end = 3 / 1000\<rparr>, ''B''),
        (\<lparr>turn_start = 3 / 1000, turn_end = 5 / 1000\<rparr>, ''A'')]"
  from speaker_buffer_is_concatenation [of getitem_ms "[10, 11, 12, 13, 14 :: nat]" ?tracks]
  obtain d where d: "group_tracks getitem_ms [10, 11, 12, 13, 14 :: nat] ?tracks [] = Inr d"
    and v: "\<And>speaker. dict_getitem d speaker =
        (if speaker \<in> set (map snd ?tracks)
         then Some (slices_of getitem_ms [10, 11, 12, 13, 14 :: nat] ?tracks speaker) else None)"
    by blast
  have "dict_getitem d ''A'' = Some [10, 11, 13, 14]"
    unfolding v by (simp add: slices_of_def getitem_ms_def)
  moreover have "dict_getitem d ''B'' = Some [12]"
    unfolding v by (simp add: slices_of_def getitem_ms_def)
  moreover have "dict_getitem d ''C'' = None"
    unfolding v by simp
  ultimately show ?thesis using d by blast
qed

text \<open>
  C8. The dictionary a pass leaves enumerates the speaker labels in first-seen order: its
  keys, in the order \<open>items()\<close> yields them, are the labels of the stream, each once, in
  the order of their first occurrence. The result is a function of the stream.
\<close>

theorem speaker_labels_in_first_seen_order:
  "\<exists>speaker_segments.
     group_tracks getitem audio tracks [] = Inr speaker_segments \<and>
     map fst speaker_segments = first_seen (map snd tracks) \<and>
     distinct (map fst speaker_segments) \<and>
     set (map fst speaker_segments) = set (map snd tracks)"
proof -
  obtain d where d: "group_tracks getitem audio tracks [] = Inr d"
    using group_tracks_values [of getitem audio tracks "[]"] by blast
  have keys: "map fst d = first_seen (map snd tracks)"
    using group_tracks_keys [OF d] by simp
  have "distinct (map fst d)"
    unfolding keys by (rule first_seen_distinct)
  moreover have "set (map fst d) = set (map snd tracks)"
    unfolding keys by (rule first_seen_set)
  ultimately show ?thesis using d keys by blast
qed

section \<open>Merging into an existing file\<close>

text \<open>
  C2. Persisting a buffer to a path that does not exist writes the buffer as the whole
  file; persisting to a path that holds a WAV file writes the audio of that file followed
  by the buffer. So persisting \<open>A\<close> and then \<open>B\<close> to a fresh path leaves \<open>A @ B\<close>, any
  number of buffers persisted in turn leave their concatenation in call order, and a
  sequence of calls can be split anywhere.
\<close>

theorem persist_appends_in_call_order:
  "(fs target = None \<longrightarrow> save_speaker fs target A = Done (fs(target \<mapsto> Wav A)))
   \<and> (fs target = Some (Wav existing) \<longrightarrow>
        save_speaker fs target B = Done (fs(target \<mapsto> Wav (existing @ B))))
   \<and> (fs target = None \<longrightarrow>
        save_all fs target [A, B] = Done (fs(target \<mapsto> Wav (A @ B))))
   \<and> (fs target = None \<and> buffers \<noteq> [] \<longrightarrow>
        save_all fs target buffers = Done (fs(target \<mapsto> Wav (concat buffers))))
   \<and> save_all fs target (xs @ ys) =
        (case save_all fs target xs of
           Raised e fs' \<Rightarrow> Raised e fs'
         | Done fs' \<Rightarrow> save_all fs' target ys)"
  using save_all_fresh [of fs target "[A, B]"] save_all_fresh [of fs target buffers]
  by (simp add: save_speaker_fresh save_speaker_wav save_all_append del: save_all.simps)

theorem persist_appends_in_call_order_witness:
  "save_speaker Map.empty ''out/call1_speaker_A.wav'' [1, 2 :: nat]
     = Done [''out/call1_speaker_A.wav'' \<mapsto> Wav [1, 2]]
   \<and> save_speaker [''out/call1_speaker_A.wav'' \<mapsto> Wav [1, 2 :: nat]]
        ''out/call1_speaker_A.wav'' [3]
     = Done [''out/call1_speaker_A.wav'' \<mapsto> Wav [1, 2, 3]]
   \<and> save_all Map.empty ''out/call1_speaker_A.wav'' [ [1, 2 :: nat], [3] ]
     = Done [''out/call1_speaker_A.wav'' \<mapsto> Wav [1, 2, 3]]
   \<and> save_all Map.empty ''out/call1_speaker_A.wav'' [ [1 :: nat], [2], [3, 4] ]
     = Done [''out/call1_speaker_A.wav'' \<mapsto> Wav [1, 2, 3, 4]]"
  using persist_appends_in_call_order
          [of Map.empty "''out/call1_speaker_A.wav''" "[1, 2 :: nat]" "[]" "[3]"
              "[ [1 :: nat], [2], [3, 4] ]" "[]" "[]"]
        persist_appends_in_call_order
          [of "[''out/call1_speaker_A.wav'' \<mapsto> Wav [1, 2 :: nat]]"
              "''out/call1_speaker_A.wav''" "[]" "[1, 2]" "[3]" "[]" "[]" "[]"]
  by (simp del: save_all.simps)

section \<open>Output paths\<close>

text \<open>
  C3, as the code has it. The label is put into the file name as it is; nothing is
  sanitized. For a fixed output folder and base filename, distinct speaker labels get
  distinct paths (with one file per segment: distinct pairs of label and segment count),
  so \<open>A/B\<close> and \<open>A_B\<close> never share a file. For base filenames as the directory listing
  gives them, without a slash, the same holds across source files: one label under
  distinct base filenames gets distinct paths, and two distinct pairs of base filename
  and label share a path only when the label that comes with the shorter base filename
  contains \<open>speaker_\<close>. So the mapping is injective on all pairs whose labels do not
  contain \<open>speaker_\<close>.
\<close>

theorem speaker_label_to_path_injective:
  "(speaker_file output_folder_path base_filename s1
      = speaker_file output_folder_path base_filename s2 \<longleftrightarrow> s1 = s2)
   \<and> (speaker_segment_file output_folder_path base_filename s1 n1
        = speaker_segment_file output_folder_path base_filename s2 n2
      \<longleftrightarrow> s1 = s2 \<and> n1 = n2)
   \<and> speaker_file output_folder_path base_filename ''A/B''
        \<noteq> speaker_file output_folder_path base_filename ''A_B''
   \<and> (CHR ''/'' \<notin> set b1 \<and> CHR ''/'' \<notin> set b2 \<longrightarrow>
        (speaker_file output_folder_path b1 s = speaker_file output_folder_path b2 s
           \<longleftrightarrow> b1 = b2)
        \<and> (speaker_segment_file output_folder_path b1 s n1
              = speaker_segment_file output_folder_path b2 s n2
           \<longleftrightarrow> b1 = b2 \<and> n1 = n2))
   \<and> (CHR ''/'' \<notin> set b1 \<and> CHR ''/'' \<notin> set b2
        \<and> \<not> str_contains s1 ''speaker_'' \<and> \<not> str_contains s2 ''speaker_'' \<longrightarrow>
        (speaker_file output_folder_path b1 s1 = speaker_file output_folder_path b2 s2
           \<longleftrightarrow> b1 = b2 \<and> s1 = s2)
        \<and> (speaker_segment_file output_folder_path b1 s1 n1
              = speaker_segment_file output_folder_path b2 s2 n2
           \<longleftrightarrow> b1 = b2 \<and> s1 = s2 \<and> n1 = n2))
   \<and> (CHR ''/'' \<notin> set b1 \<and> CHR ''/'' \<notin> set b2
        \<and> (speaker_file output_folder_path b1 s1 = speaker_file output_folder_path b2 s2
            \<or> speaker_segment_file output_folder_path b1 s1 n1
                = speaker_segment_file output_folder_path b2 s2 n2)
        \<and> length b1 < length b2 \<longrightarrow>
        str_contains s1 ''speaker_'')"
proof -
  have c1: "speaker_file output_folder_path base_filename s1
      = speaker_file output_folder_path base_filename s2 \<longleftrightarrow> s1 = s2"
    by (rule speaker_file_inject)
  have c2: "speaker_segment_file output_folder_path base_filename s1 n1
        = speaker_segment_file output_folder_path base_filename s2 n2
      \<longleftrightarrow> s1 = s2 \<and> n1 = n2"
    by (rule speaker_segment_file_inject)
  have c3: "speaker_file output_folder_path base_filename ''A/B''
        \<noteq> speaker_file output_folder_path base_filename ''A_B''"
    by (simp add: speaker_file_inject)
  have c4: "CHR ''/'' \<notin> set b1 \<and> CHR ''/'' \<notin> set b2 \<longrightarrow>
        (speaker_file output_folder_path b1 s = speaker_file output_folder_path b2 s
           \<longleftrightarrow> b1 = b2)
        \<and> (speaker_segment_file output_folder_path b1 s n1
              = speaker_segment_file output_folder_path b2 s n2
           \<longleftrightarrow> b1 = b2 \<and> n1 = n2)"
    using speaker_file_same_label [of b1 b2 output_folder_path s]
      speaker_segment_file_same_label [of b1 b2 output_folder_path s n1 n2]
    by blast
  have c5: "CHR ''/'' \<notin> set b1 \<and> CHR ''/'' \<notin> set b2
        \<and> \<not> str_contains s1 ''speaker_'' \<and> \<not> str_contains s2 ''speaker_'' \<longrightarrow>
        (speaker_file output_folder_path b1 s1 = speaker_file output_folder_path b2 s2
           \<longleftrightarrow> b1 = b2 \<and> s1 = s2)
        \<and> (speaker_segment_file output_folder_path b1 s1 n1
              = speaker_segment_file output_folder_path b2 s2 n2
           \<longleftrightarrow> b1 = b2 \<and> s1 = s2 \<and> n1 = n2)"
    using speaker_file_pair_inject [of b1 b2 s1 s2 output_folder_path]
      speaker_segment_file_pair_inject [of b1 b2 s1 s2 output_folder_path n1 n2]
    by blast
  have c6: "CHR ''/'' \<notin> set b1 \<and> CHR ''/'' \<notin> set b2
        \<and> (speaker_file output_folder_path b1 s1 = speaker_file output_folder_path b2 s2
            \<or> speaker_segment_file output_folder_path b1 s1 n1
                = speaker_segment_file output_folder_path b2 s2 n2)
        \<and> length b1 < length b2 \<longrightarrow>
        str_contains s1 ''speaker_''"
  proof (intro impI, elim conjE)
    assume sl: "CHR ''/'' \<notin> set b1" "CHR ''/'' \<notin> set b2" and len: "length b1 < length b2"
      and eq: "speaker_file output_folder_path b1 s1 = speaker_file output_folder_path b2 s2
            \<or> speaker_segment_file output_folder_path b1 s1 n1
                = speaker_segment_file output_folder_path b2 s2 n2"
    have names: "b1 @ ''_speaker_'' @ s1 = b2 @ ''_speaker_'' @ s2"
      using eq
    proof
      assume "speaker_file output_folder_path b1 s1 = speaker_file output_folder_path b2 s2"
      then have "(b1 @ ''_speaker_'' @ s1) @ ''.wav'' = (b2 @ ''_speaker_'' @ s2) @ ''.wav''"
        using sl by (simp add: speaker_file_def path_join_inject_names)
      then show ?thesis by (simp only: append_same_eq)
    next
      assume "speaker_segment_file output_folder_path b1 s1 n1
                = speaker_segment_file output_folder_path b2 s2 n2"
      then show ?thesis
        using segment_name_split [of output_folder_path b1 s1 n1 b2 s2 n2] sl
        by blast
    qed
    show "str_contains s1 ''speaker_''"
      using names len by (rule collision_label)
  qed
  show ?thesis
    by (intro conjI) (rule c1, rule c2, rule c3, rule c4, rule c5, rule c6)
qed

theorem speaker_label_to_path_injective_witness:
  "speaker_file ''out'' ''call1'' ''A/B'' = ''out/call1_speaker_A/B.wav''
   \<and> speaker_file ''out'' ''call1'' ''A_B'' = ''out/call1_speaker_A_B.wav''
   \<and> speaker_file ''out'' ''call1'' ''A/B'' \<noteq> speaker_file ''out'' ''call1'' ''A_B''
   \<and> CHR ''/'' \<notin> set ''call1'' \<and> CHR ''/'' \<notin> set ''call22''
   \<and> \<not> str_contains ''A/B'' ''speaker_'' \<and> \<not> str_contains ''A_B'' ''speaker_''
   \<and> speaker_file ''out'' ''call1'' ''A'' \<noteq> speaker_file ''out'' ''call22'' ''A''
   \<and> speaker_file ''out'' ''call1'' ''A/B'' \<noteq> speaker_file ''out'' ''call22'' ''A_B''
   \<and> speaker_segment_file ''out'' ''call1'' ''A/B'' 0
        \<noteq> speaker_segment_file ''out'' ''call22'' ''A_B'' 0"
proof -
  note t = speaker_label_to_path_injective
          [of "''out''" "''call1''" "''A/B''" "''A_B''" 0 0 "''call1''" "''call22''" "''A''"]
  have names: "speaker_file ''out'' ''call1'' ''A/B'' = ''out/call1_speaker_A/B.wav''"
    "speaker_file ''out'' ''call1'' ''A_B'' = ''out/call1_speaker_A_B.wav''"
    by (simp_all add: speaker_file_def path_join_def)
  have h: "CHR ''/'' \<notin> set ''call1''" "CHR ''/'' \<notin> set ''call22''"
    "\<not> str_contains ''A/B'' ''speaker_''" "\<not> str_contains ''A_B'' ''speaker_''"
    by simp_all
  have d: "''call1'' \<noteq> ''call22''" "''A/B'' \<noteq> ''A_B''" by simp_all
  have "speaker_file ''out'' ''call1'' ''A/B'' \<noteq> speaker_file ''out'' ''call1'' ''A_B''"
    using t by blast
  moreover have "speaker_file ''out'' ''call1'' ''A'' \<noteq> speaker_file ''out'' ''call22'' ''A''"
    using t h d by blast
  moreover have "speaker_file ''out'' ''call1'' ''A/B'' \<noteq> speaker_file ''out'' ''call22'' ''A_B''"
    using t h d by blast
  moreover have "speaker_segment_file ''out'' ''call1'' ''A/B'' 0
        \<noteq> speaker_segment_file ''out'' ''call22'' ''A_B'' 0"
    using t h d by blast
  ultimately show ?thesis using names h by blast
qed

text \<open>
  C3, as the specification states it, fails: the mapping from pairs of base filename and
  speaker label to paths is not injective. The files \<open>a_speaker_b.wav\<close> with label \<open>c\<close>
  and \<open>a.wav\<close> with label \<open>b_speaker_c\<close> share one output path.
\<close>

theorem path_of_pair_not_injective:
  "(''a_speaker_b'', ''c'') \<noteq> (''a'', ''b_speaker_c'')
   \<and> speaker_file ''out'' (splitext_root ''a_speaker_b.wav'') ''c''
       = speaker_file ''out'' (splitext_root ''a.wav'') ''b_speaker_c''
   \<and> speaker_file ''out'' ''a_speaker_b'' ''c'' = ''out/a_speaker_b_speaker_c.wav''
   \<and> speaker_file ''out'' ''a'' ''b_speaker_c'' = ''out/a_speaker_b_speaker_c.wav''"
  by (simp add: speaker_file_def path_join_def splitext_root_def rfind_def)

section \<open>A target that cannot be decoded\<close>

text \<open>
  C4, as the code has it. When the file at a speaker's path exists and cannot be decoded,
  the decoding exception of the audio library leaves the loop over the speakers: the
  speakers before it in the dictionary are persisted, the file that could not be decoded
  is left as it was, and no later speaker of the pass is persisted. A file that cannot be
  decoded is never changed by the loop, wherever it ends.
\<close>

theorem undecodable_target_ends_the_pass:
  "(save_speakers output_folder_path base_filename items fs = Done fs1
      \<and> fs1 (speaker_file output_folder_path base_filename speaker) = Some (Other bytes)
    \<longrightarrow> save_speakers output_folder_path base_filename
          (items @ (speaker, audio_segment) # rest) fs
        = Raised (CouldntDecodeError (speaker_file output_folder_path base_filename speaker))
            fs1)
   \<and> (fs p = Some (Other bytes)
    \<longrightarrow> final_fs (save_speakers output_folder_path base_filename d fs) p
          = Some (Other bytes))"
  by (simp add: save_speakers_append save_speaker_other save_speakers_other_kept)

theorem undecodable_target_ends_the_pass_witness:
  "save_speakers ''out'' ''call1'' [(''A'', [1, 2 :: nat])]
       [''out/call1_speaker_B.wav'' \<mapsto> Other ''junk'']
     = Done [''out/call1_speaker_B.wav'' \<mapsto> Other ''junk'',
             ''out/call1_speaker_A.wav'' \<mapsto> Wav [1, 2]]
   \<and> save_speakers ''out'' ''call1'' [(''A'', [1, 2 :: nat]), (''B'', [3]), (''C'', [4])]
       [''out/call1_speaker_B.wav'' \<mapsto> Other ''junk'']
     = Raised (CouldntDecodeError ''out/call1_speaker_B.wav'')
         [''out/call1_speaker_B.wav'' \<mapsto> Other ''junk'',
          ''out/call1_speaker_A.wav'' \<mapsto> Wav [1, 2]]"
  using undecodable_target_ends_the_pass
          [of "''out''" "''call1''" "[(''A'', [1, 2 :: nat])]"
              "[''out/call1_speaker_B.wav'' \<mapsto> Other ''junk'']"
              "[''out/call1_speaker_B.wav'' \<mapsto> Other ''junk'',
                ''out/call1_speaker_A.wav'' \<mapsto> Wav [1, 2]]"
              "''B''" "''junk''" "[3]" "[(''C'', [4])]" "''out/call1_speaker_B.wav''"
              "[(''A'', [1, 2 :: nat])]"]
  by (simp add: speaker_file_def path_join_def save_speaker_def path_exists_def export_def)

text \<open>
  C4, as the specification states it, fails: with an undecodable file at the path of
  speaker \<open>A\<close>, the speaker \<open>B\<close> that follows in the same pass is not persisted.
\<close>

theorem remaining_speakers_not_persisted:
  "save_speakers ''out'' ''call1'' [(''A'', [1 :: nat]), (''B'', [2])]
       [''out/call1_speaker_A.wav'' \<mapsto> Other ''junk'']
     = Raised (CouldntDecodeError ''out/call1_speaker_A.wav'')
         [''out/call1_speaker_A.wav'' \<mapsto> Other ''junk'']
   \<and> final_fs (save_speakers ''out'' ''call1'' [(''A'', [1 :: nat]), (''B'', [2])]
                 [''out/call1_speaker_A.wav'' \<mapsto> Other ''junk''])
         ''out/call1_speaker_B.wav'' = None
   \<and> save_speakers ''out'' ''call1'' [(''B'', [2 :: nat])]
       [''out/call1_speaker_A.wav'' \<mapsto> Other ''junk'']
     = Done [''out/call1_speaker_A.wav'' \<mapsto> Other ''junk'',
             ''out/call1_speaker_B.wav'' \<mapsto> Wav [2]]"
  by (simp add: speaker_file_def path_join_def save_speaker_def path_exists_def export_def
        from_wav_def)

section \<open>What the persistence phase touches\<close>

text \<open>
  C10. In the mode with one file per speaker, the loop that persists the speakers of one
  pass writes only at the paths of the speaker labels that occur in the stream of the
  pass: every other path keeps its content. It reads only there as well: on two file
  systems that agree at these paths the loop ends the same way and leaves the same
  content at these paths.
\<close>

theorem persistence_touches_only_speaker_paths:
  "group_tracks getitem audio tracks [] = Inr speaker_segments \<longrightarrow>
     (\<forall>p. p \<notin> speaker_file output_folder_path base_filename ` snd ` set tracks \<longrightarrow>
          final_fs (save_speakers output_folder_path base_filename speaker_segments fs) p
            = fs p)
     \<and> ((\<forall>speaker \<in> snd ` set tracks.
            fs2 (speaker_file output_folder_path base_filename speaker)
              = fs (speaker_file output_folder_path base_filename speaker)) \<longrightarrow>
          raised_error (save_speakers output_folder_path base_filename speaker_segments fs2)
            = raised_error (save_speakers output_folder_path base_filename speaker_segments fs)
          \<and> (\<forall>speaker \<in> snd ` set tracks.
                final_fs (save_speakers output_folder_path base_filename speaker_segments fs2)
                    (speaker_file output_folder_path base_filename speaker)
                  = final_fs (save_speakers output_folder_path base_filename speaker_segments fs)
                      (speaker_file output_folder_path base_filename speaker)))"
proof
  assume d: "group_tracks getitem audio tracks [] = Inr speaker_segments"
  have "map fst speaker_segments = first_seen (map snd tracks)"
    using group_tracks_keys [OF d] by simp
  then have keys: "set (map fst speaker_segments) = snd ` set tracks"
    using first_seen_set [of "map snd tracks"] by simp
  show "(\<forall>p. p \<notin> speaker_file output_folder_path base_filename ` snd ` set tracks \<longrightarrow>
          final_fs (save_speakers output_folder_path base_filename speaker_segments fs) p
            = fs p)
     \<and> ((\<forall>speaker \<in> snd ` set tracks.
            fs2 (speaker_file output_folder_path base_filename speaker)
              = fs (speaker_file output_folder_path base_filename speaker)) \<longrightarrow>
          raised_error (save_speakers output_folder_path base_filename speaker_segments fs2)
            = raised_error (save_speakers output_folder_path base_filename speaker_segments fs)
          \<and> (\<forall>speaker \<in> snd ` set tracks.
                final_fs (save_speakers output_folder_path base_filename speaker_segments fs2)
                    (speaker_file output_folder_path base_filename speaker)
                  = final_fs (save_speakers output_folder_path base_filename speaker_segments fs)
                      (speaker_file output_folder_path base_filename speaker)))"
    using save_speakers_frame [of _ output_folder_path base_filename speaker_segments fs]
      save_speakers_agree [of speaker_segments fs2 output_folder_path base_filename fs]
    unfolding keys by blast
qed

theorem persistence_touches_only_speaker_paths_witness:
  "group_tracks getitem_ms [10, 11, 12, 13, 14 :: nat]
       [(\<lparr>turn_start = 0, turn_end = 2 / 1000\<rparr>, ''A''),
        (\<lparr>turn_start = 2 / 1000, turn_end = 3 / 1000\<rparr>, ''B''),
        (\<lparr>turn_start = 3 / 1000, turn_end = 5 / 1000\<rparr>, ''A'')] []
     = Inr [(''A'', [10, 11, 13, 14]), (''B'', [12])]
   \<and> save_speakers ''out'' ''call1'' [(''A'', [10, 11, 13, 14 :: nat]), (''B'', [12])]
       [''out/call1_speaker_A.wav'' \<mapsto> Wav [7], ''out/other.wav'' \<mapsto> Wav [9]]
     = Done [''out/call1_speaker_A.wav'' \<mapsto> Wav [7, 10, 11, 13, 14],
             ''out/other.wav'' \<mapsto> Wav [9],
             ''out/call1_speaker_B.wav'' \<mapsto> Wav [12]]
   \<and> final_fs (save_speakers ''out'' ''call1'' [(''A'', [10, 11, 13, 14 :: nat]), (''B'', [12])]
         [''out/call1_speaker_A.wav'' \<mapsto> Wav [7], ''out/other.wav'' \<mapsto> Wav [9]])
       ''out/other.wav'' = Some (Wav [9])
   \<and> final_fs (save_speakers ''out'' ''call1'' [(''A'', [10, 11, 13, 14 :: nat]), (''B'', [12])]
         [''out/call1_speaker_A.wav'' \<mapsto> Wav [7]])
       ''out/call1_speaker_A.wav'' = Some (Wav [7, 10, 11, 13, 14])"
  using persistence_touches_only_speaker_paths
          [of getitem_ms "[10, 11, 12, 13, 14 :: nat]"
              "[(\<lparr>turn_start = 0, turn_end = 2 / 1000\<rparr>, ''A''),
                (\<lparr>turn_start = 2 / 1000, turn_end = 3 / 1000\<rparr>, ''B''),
                (\<lparr>turn_start = 3 / 1000, turn_end = 5 / 1000\<rparr>, ''A'')]"
              "[(''A'', [10, 11, 13, 14]), (''B'', [12])]"
              "''out''" "''call1''"
              "[''out/call1_speaker_A.wav'' \<mapsto> Wav [7], ''out/other.wav'' \<mapsto> Wav [9]]"
              "[''out/call1_speaker_A.wav'' \<mapsto> Wav [7]]"]
  by (simp add: getitem_ms_def dict_contains_def dict_getitem_def speaker_file_def
        path_join_def save_speaker_def path_exists_def export_def from_wav_def fun_upd_twist)

section \<open>Tracks outside the audio\<close>

text \<open>
  C5, as the code has it. Neither script compares the bounds of a track with the length
  of the audio, and nothing is raised or skipped: whatever its bounds, a track is cut by
  the slice operator of the audio library and the slice is handled like any other. With
  one file per speaker the slice is appended to the speaker's buffer, between the slices
  of the tracks before and after; with one file per segment it is written under the
  track's own segment count, and the tracks after it are written under theirs.
\<close>

theorem every_track_is_sliced_and_kept:
  "(\<exists>speaker_segments.
      group_tracks getitem audio (pre @ (turn, speaker) # post) [] = Inr speaker_segments
      \<and> dict_getitem speaker_segments speaker
          = Some (slices_of getitem audio pre speaker
                  @ getitem audio (turn_start turn * 1000) (turn_end turn * 1000)
                  @ slices_of getitem audio post speaker))
   \<and> export_tracks getitem audio output_folder_path base_filename
         (pre @ (turn, speaker) # post) 0 fs
         (speaker_segment_file output_folder_path base_filename speaker (length pre))
       = Some (Wav (getitem audio (turn_start turn * 1000) (turn_end turn * 1000)))
   \<and> (\<forall>j < length post.
         export_tracks getitem audio output_folder_path base_filename
           (pre @ (turn, speaker) # post) 0 fs
           (speaker_segment_file output_folder_path base_filename (snd (post ! j))
              (length pre + 1 + j))
         = Some (Wav (slice_of getitem audio (post ! j))))"
proof -
  let ?tracks = "pre @ (turn, speaker) # post"
  obtain d where d: "group_tracks getitem audio ?tracks [] = Inr d"
    and v: "\<And>k. dict_getitem d k =
        (case dict_getitem [] k of
           Some acc \<Rightarrow> Some (acc @ slices_of getitem audio ?tracks k)
         | None \<Rightarrow> if k \<in> set (map snd ?tracks)
                    then Some (slices_of getitem audio ?tracks k) else None)"
    using group_tracks_values [of getitem audio ?tracks "[]"] by blast
  have "dict_getitem d speaker
          = Some (slices_of getitem audio pre speaker
                  @ getitem audio (turn_start turn * 1000) (turn_end turn * 1000)
                  @ slices_of getitem audio post speaker)"
    unfolding v by (simp add: dict_getitem_def slices_of_append slices_of_Cons)
  then have first: "\<exists>speaker_segments.
      group_tracks getitem audio ?tracks [] = Inr speaker_segments
      \<and> dict_getitem speaker_segments speaker
          = Some (slices_of getitem audio pre speaker
                  @ getitem audio (turn_start turn * 1000) (turn_end turn * 1000)
                  @ slices_of getitem audio post speaker)"
    using d by blast
  have second: "export_tracks getitem audio output_folder_path base_filename ?tracks 0 fs
         (speaker_segment_file output_folder_path base_filename speaker (length pre))
       = Some (Wav (getitem audio (turn_start turn * 1000) (turn_end turn * 1000)))"
    using export_tracks_content
            [of "length pre" ?tracks getitem audio output_folder_path base_filename 0 fs]
    by (simp add: slice_of_def)
  have third: "export_tracks getitem audio output_folder_path base_filename ?tracks 0 fs
           (speaker_segment_file output_folder_path base_filename (snd (post ! j))
              (length pre + 1 + j))
         = Some (Wav (slice_of getitem audio (post ! j)))" if "j < length post" for j
  proof -
    have "?tracks ! (length pre + 1 + j) = post ! j"
      by (simp add: nth_append)
    then show ?thesis
      using export_tracks_content
              [of "length pre + 1 + j" ?tracks getitem audio output_folder_path
                  base_filename 0 fs] that
      by simp
  qed
  show ?thesis using first second third by blast
qed

theorem every_track_is_sliced_and_kept_witness:
  "(\<exists>speaker_segments.
      group_tracks getitem_ms [10, 11, 12 :: nat]
        [(\<lparr>turn_start = 5 / 1000, turn_end = 7 / 1000\<rparr>, ''A''),
         (\<lparr>turn_start = 0, turn_end = 2 / 1000\<rparr>, ''B'')] [] = Inr speaker_segments
      \<and> dict_getitem speaker_segments ''A'' = Some [])
   \<and> export_tracks getitem_ms [10, 11, 12 :: nat] ''out'' ''call1''
        [(\<lparr>turn_start = 5 / 1000, turn_end = 7 / 1000\<rparr>, ''A''),
         (\<lparr>turn_start = 0, turn_end = 2 / 1000\<rparr>, ''B'')] 0 Map.empty
        (speaker_segment_file ''out'' ''call1'' ''A'' 0) = Some (Wav [])
   \<and> export_tracks getitem_ms [10, 11, 12 :: nat] ''out'' ''call1''
        [(\<lparr>turn_start = 5 / 1000, turn_end = 7 / 1000\<rparr>, ''A''),
         (\<lparr>turn_start = 0, turn_end = 2 / 1000\<rparr>, ''B'')] 0 Map.empty
        (speaker_segment_file ''out'' ''call1'' ''B'' 1) = Some (Wav [10, 11])"
  using every_track_is_sliced_and_kept
          [of getitem_ms "[10, 11, 12 :: nat]" "[]"
              "\<lparr>turn_start = 5 / 1000, turn_end = 7 / 1000\<rparr>" "''A''"
              "[(\<lparr>turn_start = 0, turn_end = 2 / 1000\<rparr>, ''B'')]" "''out''" "''call1''"
              Map.empty]
  by (simp add: slices_of_def slice_of_def getitem_ms_def)

text \<open>
  C5, as the specification states it, fails: a track past the end of the audio is not
  reported and not skipped. Here the audio has three frames and the first track runs from
  frame 5 to frame 7: with one file per segment it is exported, empty, as segment 0, and
  the next track is segment 1; with one file per speaker its label gets a buffer.
\<close>

theorem out_of_range_track_not_skipped:
  "export_tracks getitem_ms [10, 11, 12 :: nat] ''out'' ''call1''
       [(\<lparr>turn_start = 5 / 1000, turn_end = 7 / 1000\<rparr>, ''A''),
        (\<lparr>turn_start = 0, turn_end = 2 / 1000\<rparr>, ''B'')] 0 Map.empty
     = [''out/call1_speaker_A_segment_0.wav'' \<mapsto> Wav [],
        ''out/call1_speaker_B_segment_1.wav'' \<mapsto> Wav [10, 11]]
   \<and> group_tracks getitem_ms [10, 11, 12 :: nat]
       [(\<lparr>turn_start = 5 / 1000, turn_end = 7 / 1000\<rparr>, ''A''),
        (\<lparr>turn_start = 0, turn_end = 2 / 1000\<rparr>, ''B'')] []
     = Inr [(''A'', []), (''B'', [10, 11])]"
  by (simp add: getitem_ms_def export_def speaker_segment_file_def path_join_def
        dict_contains_def dict_getitem_def str_nat.simps digit_char_def)

section \<open>A file that fails\<close>

text \<open>
  C6, as the code has it. Neither loop over the audio files catches anything: when the
  processing of one file raises (the pipeline, the decoding of the audio, or the merge
  into an existing file), the exception ends the batch. The files before it have been
  processed, what the failing file wrote before the exception stays, and no file after it
  is processed.
\<close>

theorem failing_file_ends_the_batch:
  "(process_files pipeline getitem input_folder_path output_folder_path done_files fs = Done fs1
      \<and> process_file pipeline getitem input_folder_path output_folder_path audio_file fs1
          = Raised e fs2
    \<longrightarrow> process_files pipeline getitem input_folder_path output_folder_path
          (done_files @ audio_file # rest) fs = Raised e fs2)
   \<and> (extract_files pipeline getitem input_folder_path output_folder_path done_files fs = Done fs1
      \<and> extract_file pipeline getitem input_folder_path output_folder_path audio_file fs1
          = Raised e fs2
    \<longrightarrow> extract_files pipeline getitem input_folder_path output_folder_path
          (done_files @ audio_file # rest) fs = Raised e fs2)"
  by (simp add: process_files_append extract_files_append)

theorem failing_file_ends_the_batch_witness:
  "process_files (\<lambda>p fs. Inr [(\<lparr>turn_start = 0, turn_end = 2 / 1000\<rparr>, ''A'')]) getitem_ms
       ''in'' ''out'' [''a.wav'', ''b.wav'']
       [''in/a.wav'' \<mapsto> Other ''junk'', ''in/b.wav'' \<mapsto> Wav [10, 11, 12 :: nat]]
     = Raised (CouldntDecodeError ''in/a.wav'')
         [''in/a.wav'' \<mapsto> Other ''junk'', ''in/b.wav'' \<mapsto> Wav [10, 11, 12]]
   \<and> extract_files (\<lambda>p fs. Inr [(\<lparr>turn_start = 0, turn_end = 2 / 1000\<rparr>, ''A'')]) getitem_ms
       ''in'' ''out'' [''a.wav'', ''b.wav'']
       [''in/a.wav'' \<mapsto> Other ''junk'', ''in/b.wav'' \<mapsto> Wav [10, 11, 12 :: nat]]
     = Raised (CouldntDecodeError ''in/a.wav'')
         [''in/a.wav'' \<mapsto> Other ''junk'', ''in/b.wav'' \<mapsto> Wav [10, 11, 12]]"
  using failing_file_ends_the_batch
          [of "\<lambda>p fs. Inr [(\<lparr>turn_start = 0, turn_end = 2 / 1000\<rparr>, ''A'')]" getitem_ms
              "''in''" "''out''" "[]"
              "[''in/a.wav'' \<mapsto> Other ''junk'', ''in/b.wav'' \<mapsto> Wav [10, 11, 12 :: nat]]"
              "[''in/a.wav'' \<mapsto> Other ''junk'', ''in/b.wav'' \<mapsto> Wav [10, 11, 12 :: nat]]"
              "''a.wav''" "CouldntDecodeError ''in/a.wav''"
              "[''in/a.wav'' \<mapsto> Other ''junk'', ''in/b.wav'' \<mapsto> Wav [10, 11, 12 :: nat]]"
              "[''b.wav'']"]
  by (simp add: process_file_def extract_file_def from_wav_def path_join_def Let_def)

text \<open>
  C6, as the specification states it, fails: with the files \<open>a.wav\<close>, which cannot be
  decoded, and \<open>b.wav\<close>, both scripts end with the exception of \<open>a.wav\<close> and write nothing
  for \<open>b.wav\<close>, which on its own is processed.
\<close>

theorem batch_aborted_by_one_file:
  "scd_n_files_and_save_all_voices
       (\<lambda>p fs. Inr [(\<lparr>turn_start = 0, turn_end = 2 / 1000\<rparr>, ''A'')]) getitem_ms
       ''in'' ''out'' [''a.wav'', ''b.wav'']
       [''in/a.wav'' \<mapsto> Other ''junk'', ''in/b.wav'' \<mapsto> Wav [10, 11, 12 :: nat]]
     = Raised (CouldntDecodeError ''in/a.wav'')
         [''in/a.wav'' \<mapsto> Other ''junk'', ''in/b.wav'' \<mapsto> Wav [10, 11, 12]]
   \<and> scd_n_files_and_save_all_voices
       (\<lambda>p fs. Inr [(\<lparr>turn_start = 0, turn_end = 2 / 1000\<rparr>, ''A'')]) getitem_ms
       ''in'' ''out'' [''b.wav'']
       [''in/a.wav'' \<mapsto> Other ''junk'', ''in/b.wav'' \<mapsto> Wav [10, 11, 12 :: nat]]
     = Done [''in/a.wav'' \<mapsto> Other ''junk'', ''in/b.wav'' \<mapsto> Wav [10, 11, 12],
             ''out/b_speaker_A.wav'' \<mapsto> Wav [10, 11]]
   \<and> extract_voices
       (\<lambda>p fs. Inr [(\<lparr>turn_start = 0, turn_end = 2 / 1000\<rparr>, ''A'')]) getitem_ms
       (\<lambda>p. if p = ''in/a.wav'' then 1 else 2)
       ''in'' ''out'' [''a.wav'', ''b.wav'']
       [''in/a.wav'' \<mapsto> Other ''junk'', ''in/b.wav'' \<mapsto> Wav [10, 11, 12 :: nat]]
     = Raised (CouldntDecodeError ''in/a.wav'')
         [''in/a.wav'' \<mapsto> Other ''junk'', ''in/b.wav'' \<mapsto> Wav [10, 11, 12]]
   \<and> extract_voices
       (\<lambda>p fs. Inr [(\<lparr>turn_start = 0, turn_end = 2 / 1000\<rparr>, ''A'')]) getitem_ms
       (\<lambda>p. if p = ''in/a.wav'' then 1 else 2)
       ''in'' ''out'' [''b.wav'']
       [''in/a.wav'' \<mapsto> Other ''junk'', ''in/b.wav'' \<mapsto> Wav [10, 11, 12 :: nat]]
     = Done [''in/a.wav'' \<mapsto> Other ''junk'', ''in/b.wav'' \<mapsto> Wav [10, 11, 12],
             ''out/b_speaker_A_segment_0.wav'' \<mapsto> Wav [10, 11]]"
  by (simp add: scd_n_files_and_save_all_voices_def extract_voices_def endswith_def
        process_file_def extract_file_def from_wav_def path_join_def splitext_root_def
        rfind_def getitem_ms_def dict_contains_def dict_getitem_def speaker_file_def
        speaker_segment_file_def save_speaker_def path_exists_def export_def
        str_nat.simps digit_char_def Let_def)

section \<open>Names of the output files\<close>

text \<open>
  C7. With one file per segment, a pass over one source file writes the slice of the
  track at position \<open>n\<close> of the stream, counted from 0 over all speakers, to
  \<open>{base}_speaker_{label}_segment_{n}.wav\<close> in the output folder, and changes no other
  path; \<open>{base}\<close> is the name of the source file without its extension. With one file
  per speaker, the loop that persists the speakers changes only paths
  \<open>{base}_speaker_{label}.wav\<close>, without a segment suffix, and when it ends normally each
  label of the dictionary has its file. So a pass of that script over one source file
  changes only the paths \<open>{base}_speaker_{label}.wav\<close> of the labels of its stream, with
  the base of that source file; when it ends normally each of them holds the audio that
  was there followed by the slices of the speaker, and it ends normally unless one of them
  holds a file that cannot be decoded.
\<close>

theorem output_file_names:
  "(pipeline (path_join input_folder_path audio_file) fs = Inr tracks
      \<and> from_wav fs (path_join input_folder_path audio_file) = Inr audio
    \<longrightarrow> (\<exists>fs'. extract_file pipeline getitem input_folder_path output_folder_path
                  audio_file fs = Done fs'
          \<and> (\<forall>n < length tracks.
                fs' (path_join output_folder_path
                       (splitext_root audio_file @ ''_speaker_'' @ snd (tracks ! n)
                          @ ''_segment_'' @ str_nat n @ ''.wav''))
                  = Some (Wav (slice_of getitem audio (tracks ! n))))
          \<and> (\<forall>p. fs' p \<noteq> fs p \<longrightarrow>
                (\<exists>n < length tracks.
                   p = path_join output_folder_path
                         (splitext_root audio_file @ ''_speaker_'' @ snd (tracks ! n)
                            @ ''_segment_'' @ str_nat n @ ''.wav'')))))
   \<and> (\<forall>p. final_fs (save_speakers output_folder_path base_filename speaker_segments fs) p
              \<noteq> fs p \<longrightarrow>
          (\<exists>speaker \<in> set (map fst speaker_segments).
             p = path_join output_folder_path
                   (base_filename @ ''_speaker_'' @ speaker @ ''.wav'')))
   \<and> (save_speakers output_folder_path base_filename speaker_segments fs = Done fs1 \<longrightarrow>
         (\<forall>speaker \<in> set (map fst speaker_segments).
            \<exists>a. fs1 (path_join output_folder_path
                        (base_filename @ ''_speaker_'' @ speaker @ ''.wav''))
                   = Some (Wav a)))
   \<and> (pipeline (path_join input_folder_path audio_file) fs = Inr tracks
      \<and> from_wav fs (path_join input_folder_path audio_file) = Inr audio
    \<longrightarrow> (\<forall>q. final_fs (process_file pipeline getitem input_folder_path output_folder_path audio_file fs) q \<noteq> fs q \<longrightarrow>
            (\<exists>speaker \<in> snd ` set tracks.
               q = path_join output_folder_path
                     (splitext_root audio_file @ ''_speaker_'' @ speaker @ ''.wav'')))
        \<and> (\<forall>fs2. process_file pipeline getitem input_folder_path output_folder_path audio_file fs = Done fs2 \<longrightarrow>
            (\<forall>speaker \<in> snd ` set tracks.
               fs2 (path_join output_folder_path
                       (splitext_root audio_file @ ''_speaker_'' @ speaker @ ''.wav''))
                 = Some (Wav (existing_audio fs
                                (path_join output_folder_path
                       (splitext_root audio_file @ ''_speaker_'' @ speaker @ ''.wav''))
                              @ slices_of getitem audio tracks speaker))))
        \<and> ((\<forall>speaker \<in> snd ` set tracks. \<forall>b.
              fs (path_join output_folder_path
                       (splitext_root audio_file @ ''_speaker_'' @ speaker @ ''.wav'')) \<noteq> Some (Other b)) \<longrightarrow>
            (\<exists>fs2. process_file pipeline getitem input_folder_path output_folder_path audio_file fs = Done fs2)))"
proof -
  let ?base = "splitext_root audio_file"
  let ?fs' = "export_tracks getitem audio output_folder_path ?base tracks 0 fs"
  have first: "\<exists>fs'. extract_file pipeline getitem input_folder_path output_folder_path
                  audio_file fs = Done fs'
          \<and> (\<forall>n < length tracks.
                fs' (path_join output_folder_path
                       (?base @ ''_speaker_'' @ snd (tracks ! n)
                          @ ''_segment_'' @ str_nat n @ ''.wav''))
                  = Some (Wav (slice_of getitem audio (tracks ! n))))
          \<and> (\<forall>p. fs' p \<noteq> fs p \<longrightarrow>
                (\<exists>n < length tracks.
                   p = path_join output_folder_path
                         (?base @ ''_speaker_'' @ snd (tracks ! n)
                            @ ''_segment_'' @ str_nat n @ ''.wav'')))"
    if p: "pipeline (path_join input_folder_path audio_file) fs = Inr tracks"
      and a: "from_wav fs (path_join input_folder_path audio_file) = Inr audio"
  proof -
    have run: "extract_file pipeline getitem input_folder_path output_folder_path audio_file fs
                 = Done ?fs'"
      using p a by (simp add: extract_file_def Let_def)
    have content: "\<forall>n < length tracks.
                ?fs' (path_join output_folder_path
                       (?base @ ''_speaker_'' @ snd (tracks ! n)
                          @ ''_segment_'' @ str_nat n @ ''.wav''))
                  = Some (Wav (slice_of getitem audio (tracks ! n)))"
      using export_tracks_content [of _ tracks getitem audio output_folder_path ?base 0 fs]
      by (simp add: speaker_segment_file_def)
    have changed: "\<forall>p. ?fs' p \<noteq> fs p \<longrightarrow>
                (\<exists>n < length tracks.
                   p = path_join output_folder_path
                         (?base @ ''_speaker_'' @ snd (tracks ! n)
                            @ ''_segment_'' @ str_nat n @ ''.wav''))"
      using export_tracks_dom_changed [of getitem audio output_folder_path ?base tracks 0 fs]
      by (simp add: speaker_segment_file_def)
    show ?thesis using run content changed by blast
  qed
  have second: "\<forall>p. final_fs (save_speakers output_folder_path base_filename speaker_segments fs) p
              \<noteq> fs p \<longrightarrow>
          (\<exists>speaker \<in> set (map fst speaker_segments).
             p = path_join output_folder_path
                   (base_filename @ ''_speaker_'' @ speaker @ ''.wav''))"
    using save_speakers_frame [of _ output_folder_path base_filename speaker_segments fs]
    unfolding speaker_file_def by blast
  have third: "\<forall>speaker \<in> set (map fst speaker_segments).
            \<exists>a. fs1 (path_join output_folder_path
                        (base_filename @ ''_speaker_'' @ speaker @ ''.wav''))
                   = Some (Wav a)"
    if "save_speakers output_folder_path base_filename speaker_segments fs = Done fs1"
    using save_speakers_written [OF that] unfolding speaker_file_def by blast
  have fourth: "(\<forall>q. final_fs (process_file pipeline getitem input_folder_path output_folder_path audio_file fs) q \<noteq> fs q \<longrightarrow>
            (\<exists>speaker \<in> snd ` set tracks.
               q = path_join output_folder_path
                     (splitext_root audio_file @ ''_speaker_'' @ speaker @ ''.wav'')))
        \<and> (\<forall>fs2. process_file pipeline getitem input_folder_path output_folder_path audio_file fs = Done fs2 \<longrightarrow>
            (\<forall>speaker \<in> snd ` set tracks.
               fs2 (path_join output_folder_path
                       (splitext_root audio_file @ ''_speaker_'' @ speaker @ ''.wav''))
                 = Some (Wav (existing_audio fs
                                (path_join output_folder_path
                       (splitext_root audio_file @ ''_speaker_'' @ speaker @ ''.wav''))
                              @ slices_of getitem audio tracks speaker))))
        \<and> ((\<forall>speaker \<in> snd ` set tracks. \<forall>b.
              fs (path_join output_folder_path
                       (splitext_root audio_file @ ''_speaker_'' @ speaker @ ''.wav'')) \<noteq> Some (Other b)) \<longrightarrow>
            (\<exists>fs2. process_file pipeline getitem input_folder_path output_folder_path audio_file fs = Done fs2))"
    if p: "pipeline (path_join input_folder_path audio_file) fs = Inr tracks"
      and a: "from_wav fs (path_join input_folder_path audio_file) = Inr audio"
    using process_file_pass
            [of pipeline input_folder_path audio_file fs tracks audio getitem
                output_folder_path, OF p a]
    unfolding speaker_file_def .
  show ?thesis using first second third fourth by blast
qed

theorem output_file_names_witness:
  "extract_file
       (\<lambda>p fs. Inr [(\<lparr>turn_start = 0, turn_end = 2 / 1000\<rparr>, ''A''),
                      (\<lparr>turn_start = 2 / 1000, turn_end = 3 / 1000\<rparr>, ''B''),
                      (\<lparr>turn_start = 3 / 1000, turn_end = 5 / 1000\<rparr>, ''A'')])
       getitem_ms ''in'' ''out'' ''call1.wav''
       [''in/call1.wav'' \<mapsto> Wav [10, 11, 12, 13, 14 :: nat]]
     = Done [''in/call1.wav'' \<mapsto> Wav [10, 11, 12, 13, 14],
             ''out/call1_speaker_A_segment_0.wav'' \<mapsto> Wav [10, 11],
             ''out/call1_speaker_B_segment_1.wav'' \<mapsto> Wav [12],
             ''out/call1_speaker_A_segment_2.wav'' \<mapsto> Wav [13, 14]]
   \<and> save_speakers ''out'' ''call1'' [(''A'', [10, 11, 13, 14 :: nat]), (''B'', [12])]
       [''in/call1.wav'' \<mapsto> Wav [10, 11, 12, 13, 14 :: nat]]
     = Done [''in/call1.wav'' \<mapsto> Wav [10, 11, 12, 13, 14],
             ''out/call1_speaker_A.wav'' \<mapsto> Wav [10, 11, 13, 14],
             ''out/call1_speaker_B.wav'' \<mapsto> Wav [12]]
   \<and> process_file
       (\<lambda>p fs. Inr [(\<lparr>turn_start = 0, turn_end = 2 / 1000\<rparr>, ''A''),
                      (\<lparr>turn_start = 2 / 1000, turn_end = 3 / 1000\<rparr>, ''B''),
                      (\<lparr>turn_start = 3 / 1000, turn_end = 5 / 1000\<rparr>, ''A'')])
       getitem_ms ''in'' ''out'' ''call1.wav''
       [''in/call1.wav'' \<mapsto> Wav [10, 11, 12, 13, 14 :: nat]]
     = Done [''in/call1.wav'' \<mapsto> Wav [10, 11, 12, 13, 14],
             ''out/call1_speaker_A.wav'' \<mapsto> Wav [10, 11, 13, 14],
             ''out/call1_speaker_B.wav'' \<mapsto> Wav [12]]"
  using output_file_names
          [of "\<lambda>p fs. Inr [(\<lparr>turn_start = 0, turn_end = 2 / 1000\<rparr>, ''A''),
                      (\<lparr>turn_start = 2 / 1000, turn_end = 3 / 1000\<rparr>, ''B''),
                      (\<lparr>turn_start = 3 / 1000, turn_end = 5 / 1000\<rparr>, ''A'')]"
              "''in''" "''call1.wav''"
              "[''in/call1.wav'' \<mapsto> Wav [10, 11, 12, 13, 14 :: nat]]"
              "[(\<lparr>turn_start = 0, turn_end = 2 / 1000\<rparr>, ''A''),
                (\<lparr>turn_start = 2 / 1000, turn_end = 3 / 1000\<rparr>, ''B''),
                (\<lparr>turn_start = 3 / 1000, turn_end = 5 / 1000\<rparr>, ''A'')]"
              "[10, 11, 12, 13, 14 :: nat]" getitem_ms "''out''" "''call1''"
              "[(''A'', [10, 11, 13, 14 :: nat]), (''B'', [12])]"
              "[''in/call1.wav'' \<mapsto> Wav [10, 11, 12, 13, 14],
               ''out/call1_speaker_A.wav'' \<mapsto> Wav [10, 11, 13, 14],
               ''out/call1_speaker_B.wav'' \<mapsto> Wav [12]]"]
  by (simp add: extract_file_def process_file_def from_wav_def path_join_def
        splitext_root_def rfind_def getitem_ms_def dict_contains_def dict_getitem_def
        speaker_file_def speaker_segment_file_def save_speaker_def path_exists_def
        export_def str_nat.simps digit_char_def Let_def)

section \<open>Running the segment export again\<close>

text \<open>
  C9. With one file per segment, exporting to a path that exists replaces the whole file:
  the export cannot fail on it, and the result of the loop is the file system it started
  from, overridden by what the same loop writes into an empty one, so every track's path
  holds exactly the new slice whatever was there. The segment count starts at 0 for each
  source file, so running a pass again on its own output, with the same tracks and audio,
  writes the same names and leaves the file system as the first run left it.
\<close>

theorem segment_export_overwrites:
  "export_tracks getitem audio output_folder_path base_filename tracks n fs
     = fs ++ export_tracks getitem audio output_folder_path base_filename tracks n Map.empty
   \<and> (\<forall>i < length tracks.
         export_tracks getitem audio output_folder_path base_filename tracks n fs
           (speaker_segment_file output_folder_path base_filename (snd (tracks ! i)) (n + i))
         = Some (Wav (slice_of getitem audio (tracks ! i))))
   \<and> export_tracks getitem audio output_folder_path base_filename tracks n
         (export_tracks getitem audio output_folder_path base_filename tracks n fs)
       = export_tracks getitem audio output_folder_path base_filename tracks n fs
   \<and> (pipeline (path_join input_folder_path audio_file) fs = Inr tracks
        \<and> from_wav fs (path_join input_folder_path audio_file) = Inr audio
        \<and> extract_file pipeline getitem input_folder_path output_folder_path audio_file fs
            = Done fs1
        \<and> pipeline (path_join input_folder_path audio_file) fs1 = Inr tracks
        \<and> from_wav fs1 (path_join input_folder_path audio_file) = Inr audio
      \<longrightarrow> extract_file pipeline getitem input_folder_path output_folder_path audio_file fs1
            = Done fs1)"
proof -
  have rerun: "extract_file pipeline getitem input_folder_path output_folder_path audio_file fs1
            = Done fs1"
    if "pipeline (path_join input_folder_path audio_file) fs = Inr tracks"
      and "from_wav fs (path_join input_folder_path audio_file) = Inr audio"
      and "extract_file pipeline getitem input_folder_path output_folder_path audio_file fs
            = Done fs1"
      and "pipeline (path_join input_folder_path audio_file) fs1 = Inr tracks"
      and "from_wav fs1 (path_join input_folder_path audio_file) = Inr audio"
  proof -
    have "fs1 = export_tracks getitem audio output_folder_path (splitext_root audio_file)
                  tracks 0 fs"
      using that(1,2,3) by (simp add: extract_file_def Let_def)
    then show ?thesis
      using that(4,5) by (simp add: extract_file_def Let_def export_tracks_rerun)
  qed
  show ?thesis
    using export_tracks_override
            [of getitem audio output_folder_path base_filename tracks n fs]
      export_tracks_content
            [of _ tracks getitem audio output_folder_path base_filename n fs]
      export_tracks_rerun [of getitem audio output_folder_path base_filename tracks n fs]
      rerun
    by blast
qed

theorem segment_export_overwrites_witness:
  "extract_file
       (\<lambda>p fs. Inr [(\<lparr>turn_start = 0, turn_end = 2 / 1000\<rparr>, ''A''),
                      (\<lparr>turn_start = 2 / 1000, turn_end = 3 / 1000\<rparr>, ''B'')])
       getitem_ms ''in'' ''out'' ''call1.wav''
       [''in/call1.wav'' \<mapsto> Wav [10, 11, 12, 13, 14 :: nat],
        ''out/call1_speaker_A_segment_0.wav'' \<mapsto> Wav [98, 99]]
     = Done [''in/call1.wav'' \<mapsto> Wav [10, 11, 12, 13, 14],
             ''out/call1_speaker_A_segment_0.wav'' \<mapsto> Wav [10, 11],
             ''out/call1_speaker_B_segment_1.wav'' \<mapsto> Wav [12]]
   \<and> extract_file
       (\<lambda>p fs. Inr [(\<lparr>turn_start = 0, turn_end = 2 / 1000\<rparr>, ''A''),
                      (\<lparr>turn_start = 2 / 1000, turn_end = 3 / 1000\<rparr>, ''B'')])
       getitem_ms ''in'' ''out'' ''call1.wav''
       [''in/call1.wav'' \<mapsto> Wav [10, 11, 12, 13, 14 :: nat],
        ''out/call1_speaker_A_segment_0.wav'' \<mapsto> Wav [10, 11],
        ''out/call1_speaker_B_segment_1.wav'' \<mapsto> Wav [12]]
     = Done [''in/call1.wav'' \<mapsto> Wav [10, 11, 12, 13, 14],
             ''out/call1_speaker_A_segment_0.wav'' \<mapsto> Wav [10, 11],
             ''out/call1_speaker_B_segment_1.wav'' \<mapsto> Wav [12]]
   \<and> export_tracks getitem_ms [10, 11, 12, 13, 14 :: nat] ''out'' ''call1''
       [(\<lparr>turn_start = 0, turn_end = 2 / 1000\<rparr>, ''A''),
        (\<lparr>turn_start = 2 / 1000, turn_end = 3 / 1000\<rparr>, ''B'')] 0
       [''in/call1.wav'' \<mapsto> Wav [10, 11, 12, 13, 14 :: nat],
        ''out/call1_speaker_A_segment_0.wav'' \<mapsto> Wav [98, 99]]
       (speaker_segment_file ''out'' ''call1'' ''A'' 0) = Some (Wav [10, 11])"
  using segment_export_overwrites
          [of getitem_ms "[10, 11, 12, 13, 14 :: nat]" "''out''" "''call1''"
              "[(\<lparr>turn_start = 0, turn_end = 2 / 1000\<rparr>, ''A''),
                (\<lparr>turn_start = 2 / 1000, turn_end = 3 / 1000\<rparr>, ''B'')]" 0
              "[''in/call1.wav'' \<mapsto> Wav [10, 11, 12, 13, 14 :: nat],
                ''out/call1_speaker_A_segment_0.wav'' \<mapsto> Wav [98, 99]]"
              "\<lambda>p fs. Inr [(\<lparr>turn_start = 0, turn_end = 2 / 1000\<rparr>, ''A''),
                      (\<lparr>turn_start = 2 / 1000, turn_end = 3 / 1000\<rparr>, ''B'')]"
              "''in''" "''call1.wav''"
              "[''in/call1.wav'' \<mapsto> Wav [10, 11, 12, 13, 14 :: nat],
                ''out/call1_speaker_A_segment_0.wav'' \<mapsto> Wav [10, 11],
                ''out/call1_speaker_B_segment_1.wav'' \<mapsto> Wav [12]]"]
  by (simp add: extract_file_def from_wav_def splitext_root_def rfind_def getitem_ms_def
        speaker_segment_file_def path_join_def export_def str_nat.simps digit_char_def
        slice_of_def Let_def)

end
